theory Spec2Isabelle
  imports Complex_Main
begin

section \<open>Data model of \<open>MazeGenerator.js\<close>\<close>

text \<open>
  A cell is a pair of JavaScript numbers that only ever hold integers. The maze grid is
  an array of \<open>width\<close> columns, each an array of \<open>height\<close> booleans, indexed
  \<open>mazeGrid[x][y]\<close>; \<open>True\<close> is a wall and \<open>False\<close> is a path.
\<close>

type_synonym cell = "int \<times> int"

type_synonym grid = "bool list list"

datatype error = TypeError | RangeError

text \<open>
  The fields of the class that the modelled methods read or write. The presentation
  fields \<open>wallHeight\<close>, \<open>shiftDuration\<close>, \<open>wallObjects\<close> and the Prim work list
  \<open>frontiers\<close> are read by none of them and are left out; \<open>directions\<close> is the constant
  below. Times and probabilities are JavaScript doubles, modelled as reals.
\<close>

record maze =
  width :: int
  height :: int
  cellSize :: real
  shiftInterval :: real
  shiftChance :: real
  mazeGrid :: grid
  exitPosition :: cell
  nextShiftTime :: real
  usePatternedGeneration :: bool
  patternType :: int

text \<open>Directions: Up, Right, Down, Left.\<close>

definition directions :: "cell list" where
  "directions = [(0, 1), (1, 0), (0, -1), (-1, 0)]"

definition isInBounds :: "maze \<Rightarrow> cell \<Rightarrow> bool" where
  "isInBounds m c \<longleftrightarrow> fst c \<ge> 0 \<and> fst c < width m \<and> snd c \<ge> 0 \<and> snd c < height m"

text \<open>
  \<open>isWall g x y\<close> is the read \<open>mazeGrid[x][y]\<close> and \<open>setCell g x y v\<close> the write
  \<open>mazeGrid[x][y] = v\<close>, for a column index \<open>x\<close> that exists. A read whose \<open>y\<close> is not
  an index of the column gives \<open>undefined\<close>, which every test of the source takes as
  \<open>false\<close>. A write whose \<open>y\<close> is not an index of the column leaves every cell of the
  column as it was: JavaScript adds a property for a negative \<open>y\<close> and lengthens the
  column for a \<open>y\<close> past its end, changing none of its existing elements, and
  \<open>setCell\<close> leaves the column as it is. The two differ only in what a later read
  at that same index, outside the grid, returns; on a grid at least 5 by 5 with draws in
  [0, 1) every write of \<open>generateMaze\<close> and of a shift firing is to a cell of the grid.
  A column index that does not exist makes JavaScript throw a
  \<open>TypeError\<close>; the callers below either sit behind \<open>isInBounds\<close> or test the
  index and return the error.
\<close>

definition isWall :: "grid \<Rightarrow> int \<Rightarrow> int \<Rightarrow> bool" where
  "isWall g x y \<longleftrightarrow> 0 \<le> y \<and> y < int (length (g ! nat x)) \<and> g ! nat x ! nat y"

definition hasColumn :: "grid \<Rightarrow> int \<Rightarrow> bool" where
  "hasColumn g x \<longleftrightarrow> 0 \<le> x \<and> x < int (length g)"

definition setCell :: "grid \<Rightarrow> int \<Rightarrow> int \<Rightarrow> bool \<Rightarrow> grid" where
  "setCell g x y v =
     (if 0 \<le> x \<and> x < int (length g) \<and> 0 \<le> y \<and> y < int (length (g ! nat x))
      then g[nat x := (g ! nat x)[nat y := v]] else g)"

text \<open>\<open>isPath m c\<close>: the cell is inside the grid and holds \<open>false\<close>.\<close>

definition isPath :: "maze \<Rightarrow> cell \<Rightarrow> bool" where
  "isPath m c \<longleftrightarrow> isInBounds m c \<and> \<not> isWall (mazeGrid m) (fst c) (snd c)"

text \<open>
  The counter \<open>adjacentPaths\<close> that several methods compute with
  \<open>directions.forEach\<close>: the number of in-bounds orthogonal neighbours that are paths.
\<close>

definition adjacentPaths :: "maze \<Rightarrow> int \<Rightarrow> int \<Rightarrow> nat" where
  "adjacentPaths m x y =
     length (filter (\<lambda>dir. isPath m (x + fst dir, y + snd dir)) directions)"

text \<open>
  The shape every method keeps: \<open>width\<close> columns of \<open>height\<close> cells. The constructor
  and \<open>initializeMaze\<close> build the grid this way and no method changes a length.
\<close>

definition wfGrid :: "maze \<Rightarrow> bool" where
  "wfGrid m \<longleftrightarrow> int (length (mazeGrid m)) = width m
      \<and> list_all (\<lambda>col. int (length col) = height m) (mazeGrid m)"

section \<open>\<open>createPathToExit\<close>\<close>

text \<open>
  The two \<open>while\<close> loops of \<open>createPathToExit\<close>. Each runs until its coordinate
  equals the exit's, so it returns only when the step points towards the exit: the
  loops are partial functions, \<open>None\<close> meaning that the loop does not return. In the
  horizontal loop a column index outside the grid makes \<open>this.mazeGrid[x]\<close>
  \<open>undefined\<close> and the write throws a \<open>TypeError\<close>. In the vertical loop the column
  \<open>mazeGrid[exitPosition.x]\<close> is fetched on every round, with the same error.
\<close>

partial_function (option) carveRow :: "grid \<Rightarrow> int \<Rightarrow> int \<Rightarrow> int \<Rightarrow> int \<Rightarrow> (error + grid) option" where
  "carveRow g cx stepX ex sy =
     (if cx \<noteq> ex
      then (if hasColumn g (cx + stepX)
            then carveRow (setCell g (cx + stepX) sy False) (cx + stepX) stepX ex sy
            else Some (Inl TypeError))
      else Some (Inr g))"

partial_function (option) carveCol :: "grid \<Rightarrow> int \<Rightarrow> int \<Rightarrow> int \<Rightarrow> int \<Rightarrow> (error + grid) option" where
  "carveCol g cy stepY ex ey =
     (if cy \<noteq> ey
      then (if hasColumn g ex
            then carveCol (setCell g ex (cy + stepY) False) (cy + stepY) stepY ex ey
            else Some (Inl TypeError))
      else Some (Inr g))"

definition createPathToExit :: "maze \<Rightarrow> cell \<Rightarrow> (error + maze) option" where
  "createPathToExit m startCell =
     (let dx = fst (exitPosition m) - fst startCell;
          dy = snd (exitPosition m) - snd startCell;
          stepX = (if dx > 0 then 1 else -1);
          stepY = (if dy > 0 then 1 else -1)
      in case carveRow (mazeGrid m) (fst startCell) stepX (fst (exitPosition m)) (snd startCell) of
           None \<Rightarrow> None
         | Some (Inl e) \<Rightarrow> Some (Inl e)
         | Some (Inr g1) \<Rightarrow>
             (case carveCol g1 (snd startCell) stepY (fst (exitPosition m)) (snd (exitPosition m)) of
                None \<Rightarrow> None
              | Some (Inl e) \<Rightarrow> Some (Inl e)
              | Some (Inr g2) \<Rightarrow> Some (Inr (m\<lparr>mazeGrid := g2\<rparr>))))"

section \<open>\<open>ensureMazeIsSolvable\<close>\<close>

text \<open>
  The search for the start cell: \<open>x\<close> from 0 in the outer loop, \<open>y\<close> from 0 in the
  inner one, leaving both loops at the first path cell that is not the exit.
\<close>

function scanColumn :: "maze \<Rightarrow> int \<Rightarrow> int \<Rightarrow> cell option" where
  "scanColumn m x y =
     (if y < height m
      then (if \<not> isWall (mazeGrid m) x y \<and> (x \<noteq> fst (exitPosition m) \<or> y \<noteq> snd (exitPosition m))
            then Some (x, y)
            else scanColumn m x (y + 1))
      else None)"
  by pat_completeness auto
termination
  by (relation "measure (\<lambda>(m, x, y). nat (height m - y))") auto

declare scanColumn.simps [simp del]

function findStartCell :: "maze \<Rightarrow> int \<Rightarrow> cell option" where
  "findStartCell m x =
     (if x < width m
      then (case scanColumn m x 0 of
              Some c \<Rightarrow> Some c
            | None \<Rightarrow> findStartCell m (x + 1))
      else None)"
  by pat_completeness auto
termination
  by (relation "measure (\<lambda>(m, x). nat (width m - x))") auto

declare findStartCell.simps [simp del]

text \<open>
  The breadth-first search. \<open>visited\<close> is a \<open>width \<times> height\<close> array of booleans, all
  \<open>false\<close> at first, that is only read and written at in-bounds cells; it is modelled
  as the set of cells that hold \<open>true\<close>. The queue is the list, \<open>shift\<close> taking its
  head and \<open>push\<close> appending. \<open>visitNeighbor\<close> is the body of the
  \<open>directions.forEach\<close> for one direction.
\<close>

definition visitNeighbor :: "maze \<Rightarrow> cell \<Rightarrow> cell set \<times> cell list \<Rightarrow> cell \<Rightarrow> cell set \<times> cell list" where
  "visitNeighbor m current st dir =
     (let next = (fst current + fst dir, snd current + snd dir)
      in if isInBounds m next \<and> \<not> isWall (mazeGrid m) (fst next) (snd next) \<and> next \<notin> fst st
         then (insert next (fst st), snd st @ [next])
         else st)"

definition unvisited :: "maze \<Rightarrow> cell set \<Rightarrow> nat" where
  "unvisited m visited = card ({c. isInBounds m c} - visited)"

lemma finite_inBounds: "finite {c. isInBounds m c}"
proof -
  have "{c. isInBounds m c} \<subseteq> {0..<width m} \<times> {0..<height m}"
    by (auto simp: isInBounds_def)
  then show ?thesis
    by (rule finite_subset) simp
qed

lemma visitNeighbor_measure:
  "unvisited m (fst (visitNeighbor m c st d)) + length (snd (visitNeighbor m c st d))
     = unvisited m (fst st) + length (snd st)"
proof (cases "isInBounds m (fst c + fst d, snd c + snd d)
     \<and> \<not> isWall (mazeGrid m) (fst c + fst d) (snd c + snd d)
     \<and> (fst c + fst d, snd c + snd d) \<notin> fst st")
  case True
  let ?n = "(fst c + fst d, snd c + snd d)"
  have mem: "?n \<in> {c. isInBounds m c} - fst st"
    using True by simp
  have fin: "finite ({c. isInBounds m c} - fst st)"
    using finite_inBounds by simp
  have "{c. isInBounds m c} - insert ?n (fst st) = ({c. isInBounds m c} - fst st) - {?n}"
    by auto
  then have "card ({c. isInBounds m c} - insert ?n (fst st)) = card ({c. isInBounds m c} - fst st) - 1"
    using mem fin by (simp add: card_Diff_singleton)
  moreover have "card ({c. isInBounds m c} - fst st) > 0"
    using mem fin by (metis card_gt_0_iff empty_iff)
  ultimately show ?thesis
    using True by (simp add: visitNeighbor_def unvisited_def Let_def)
next
  case False
  then show ?thesis
    by (auto simp: visitNeighbor_def Let_def)
qed

lemma visitAll_measure:
  "unvisited m (fst (foldl (visitNeighbor m c) st ds)) + length (snd (foldl (visitNeighbor m c) st ds))
     = unvisited m (fst st) + length (snd st)"
  by (induction ds arbitrary: st) (simp_all add: visitNeighbor_measure)

function bfs :: "maze \<Rightarrow> cell set \<Rightarrow> cell list \<Rightarrow> bool" where
  "bfs m visited [] = False"
| "bfs m visited (current # queue) =
     (if current = exitPosition m then True
      else bfs m (fst (foldl (visitNeighbor m current) (visited, queue) directions))
                 (snd (foldl (visitNeighbor m current) (visited, queue) directions)))"
  by pat_completeness auto
termination
proof (relation "measure (\<lambda>(m, visited, queue). unvisited m visited + length queue)")
  show "wf (measure (\<lambda>(m, visited, queue). unvisited m visited + length queue))"
    by simp
next
  fix m :: maze and visited :: "cell set" and current :: cell and queue :: "cell list"
  show "((m, fst (foldl (visitNeighbor m current) (visited, queue) directions),
             snd (foldl (visitNeighbor m current) (visited, queue) directions)),
         (m, visited, current # queue))
        \<in> measure (\<lambda>(m, visited, queue). unvisited m visited + length queue)"
    using visitAll_measure [of m current "(visited, queue)" directions]
    by (simp add: case_prod_beta)
qed

declare bfs.simps [simp del]

text \<open>
  \<open>ensureMazeIsSolvable\<close>: with no start cell it returns at once; otherwise the search
  starts from the start cell, marked visited, and the repair runs when the search ends
  without taking the exit from the queue.
\<close>

definition ensureMazeIsSolvable :: "maze \<Rightarrow> (error + maze) option" where
  "ensureMazeIsSolvable m =
     (case findStartCell m 0 of
        None \<Rightarrow> Some (Inr m)
      | Some startCell \<Rightarrow>
          (if bfs m {startCell} [startCell] then Some (Inr m)
           else createPathToExit m startCell))"

section \<open>\<open>shiftMazeWalls\<close> and \<open>updateMaze\<close>\<close>

text \<open>
  \<open>Math.random()\<close> is the only source of randomness. A run is modelled against the
  sequence of values its calls return, \<open>rng 0\<close>, \<open>rng 1\<close>, \<dots>, each in \<open>[0, 1)\<close>, and
  every method that draws threads the number of draws made so far.
\<close>

type_synonym rng = "nat \<Rightarrow> real"

text \<open>
  \<open>Math.sqrt(Math.pow(x - exit.x, 2) + Math.pow(y - exit.y, 2))\<close>. The operands are
  integers, so the sum of squares is exact, and the double square root is below 3 exactly
  when the real one is.
\<close>

definition distanceToExit :: "maze \<Rightarrow> int \<Rightarrow> int \<Rightarrow> real" where
  "distanceToExit m x y =
     sqrt (real_of_int ((x - fst (exitPosition m))\<^sup>2 + (y - snd (exitPosition m))\<^sup>2))"

text \<open>
  One round of the inner loop of \<open>shiftMazeWalls\<close> at cell \<open>(x, y)\<close>. The state is
  the number of draws made and the list \<open>wallsToShift\<close> of entries
  \<open>(x, y, toWall)\<close>. Every neighbour count reads \<open>m\<close>, the maze as it is when the
  method is entered: the loops write nothing to the grid.
\<close>

definition shiftScanCell :: "maze \<Rightarrow> rng \<Rightarrow> int \<Rightarrow> nat \<times> (int \<times> int \<times> bool) list \<Rightarrow> int
    \<Rightarrow> nat \<times> (int \<times> int \<times> bool) list" where
  "shiftScanCell m rng x st y =
     (if distanceToExit m x y < 3 then st
      else if rng (fst st) < shiftChance m
      then (if isWall (mazeGrid m) x y
            then (if adjacentPaths m x y \<le> 2
                  then (Suc (fst st), snd st @ [(x, y, False)])
                  else (Suc (fst st), snd st))
            else (if adjacentPaths m x y \<ge> 3
                  then (Suc (fst st), snd st @ [(x, y, True)])
                  else (Suc (fst st), snd st)))
      else (Suc (fst st), snd st))"

text \<open>The two \<open>for\<close> loops: \<open>x\<close> from 1 to \<open>width - 2\<close>, \<open>y\<close> from 1 to \<open>height - 2\<close>.\<close>

definition collectShifts :: "maze \<Rightarrow> rng \<Rightarrow> nat \<times> (int \<times> int \<times> bool) list" where
  "collectShifts m rng =
     foldl (\<lambda>st x. foldl (shiftScanCell m rng x) st [1 .. height m - 2]) (0, []) [1 .. width m - 2]"

text \<open>\<open>wallsToShift.forEach(wall => mazeGrid[wall.x][wall.y] = wall.toWall)\<close>.\<close>

definition applyShifts :: "grid \<Rightarrow> (int \<times> int \<times> bool) list \<Rightarrow> grid" where
  "applyShifts g walls = foldl (\<lambda>g wall. setCell g (fst wall) (fst (snd wall)) (snd (snd wall))) g walls"

definition shiftBatch :: "maze \<Rightarrow> rng \<Rightarrow> maze" where
  "shiftBatch m rng = m\<lparr>mazeGrid := applyShifts (mazeGrid m) (snd (collectShifts m rng))\<rparr>"

definition shiftMazeWalls :: "maze \<Rightarrow> rng \<Rightarrow> (error + maze) option" where
  "shiftMazeWalls m rng = ensureMazeIsSolvable (shiftBatch m rng)"

text \<open>
  \<open>updateMaze\<close> returns its boolean together with the updated object. The countdown
  \<open>this.nextShiftTime -= deltaTime / 1000\<close> is arithmetic on doubles, which rounds:
  \<open>ddiv\<close> and \<open>dsub\<close> stand for the division and the subtraction of doubles, and
  the method is modelled for whatever the two return. The test \<open><= 0\<close> compares
  doubles and is exact.
\<close>

definition updateMaze :: "(real \<Rightarrow> real \<Rightarrow> real) \<Rightarrow> (real \<Rightarrow> real \<Rightarrow> real) \<Rightarrow> maze \<Rightarrow> real \<Rightarrow> rng
    \<Rightarrow> (error + bool \<times> maze) option" where
  "updateMaze dsub ddiv m deltaTime rng =
     (let m1 = m\<lparr>nextShiftTime := dsub (nextShiftTime m) (ddiv deltaTime 1000)\<rparr>
      in if nextShiftTime m1 \<le> 0
         then (case shiftMazeWalls m1 rng of
                 None \<Rightarrow> None
               | Some (Inl e) \<Rightarrow> Some (Inl e)
               | Some (Inr m2) \<Rightarrow> Some (Inr (True, m2\<lparr>nextShiftTime := shiftInterval m2\<rparr>)))
         else Some (Inr (False, m1)))"

section \<open>The constructor and the choice of generator\<close>

text \<open>
  \<open>Array(n)\<close> throws a \<open>RangeError\<close> when \<open>n\<close> is negative or above \<open>2\<^sup>3\<^sup>2 - 1\<close>.
  \<open>Array(width)\<close> is evaluated first; \<open>Array(height)\<close> is evaluated once per column,
  so never when \<open>width\<close> is 0. The constructor contains no other test of its
  arguments. Its one draw is used in \<open>Math.floor(Math.random() * 3)\<close>, where the
  product is a double: \<open>p\<close> is that product as the code computes it, and the floor
  of a double is exact. A draw is a double below 1, so at most \<open>1 - 2\<^sup>-\<^sup>5\<^sup>3\<close>, and its
  product with 3 rounds to a double that is at least 0 and below 3.
\<close>

definition validArrayLength :: "int \<Rightarrow> bool" where
  "validArrayLength n \<longleftrightarrow> 0 \<le> n \<and> n \<le> 4294967295"

definition constructor :: "int \<Rightarrow> int \<Rightarrow> real \<Rightarrow> real \<Rightarrow> error + maze" where
  "constructor w h cs p =
     (if \<not> validArrayLength w then Inl RangeError
      else if w > 0 \<and> \<not> validArrayLength h then Inl RangeError
      else Inr \<lparr>width = w, height = h, cellSize = cs, shiftInterval = 60, shiftChance = 2 / 10,
                mazeGrid = replicate (nat w) (replicate (nat h) True),
                exitPosition = (0, 0), nextShiftTime = 0,
                usePatternedGeneration = True, patternType = \<lfloor>p\<rfloor>\<rparr>)"

datatype generator = GeometricPattern | ConcentricPattern | SymmetricPattern | PrimsAlgorithm

text \<open>The \<open>if\<close> and the \<open>switch\<close> at the head of \<open>generateMaze\<close>.\<close>

definition selectGenerator :: "maze \<Rightarrow> generator" where
  "selectGenerator m =
     (if usePatternedGeneration m
      then (if patternType m = 0 then GeometricPattern
            else if patternType m = 1 then ConcentricPattern
            else if patternType m = 2 then SymmetricPattern
            else PrimsAlgorithm)
      else PrimsAlgorithm)"

section \<open>Solvability\<close>

text \<open>
  Two cells are orthogonal neighbours when they differ by one step on one axis; a step
  of a route goes between neighbouring path cells; \<open>pathConnected m a b\<close> says that a
  route of such steps leads from \<open>a\<close> to \<open>b\<close>.
\<close>

definition adjacent :: "cell \<Rightarrow> cell \<Rightarrow> bool" where
  "adjacent c d \<longleftrightarrow> \<bar>fst c - fst d\<bar> + \<bar>snd c - snd d\<bar> = 1"

definition pathStep :: "maze \<Rightarrow> cell \<Rightarrow> cell \<Rightarrow> bool" where
  "pathStep m c d \<longleftrightarrow> isPath m c \<and> isPath m d \<and> adjacent c d"

definition pathConnected :: "maze \<Rightarrow> cell \<Rightarrow> cell \<Rightarrow> bool" where
  "pathConnected m a b \<longleftrightarrow> (pathStep m)\<^sup>*\<^sup>* a b"

text \<open>The maze states the methods run on: the grid has its shape and the exit is a cell of it.\<close>

definition wfMaze :: "maze \<Rightarrow> bool" where
  "wfMaze m \<longleftrightarrow> wfGrid m \<and> isInBounds m (exitPosition m)"

text \<open>
  The corridor of the specification: every cell from the start's column to the exit's
  column along the start's row, and every cell from that row to the exit's row along the
  exit's column.
\<close>

definition lCorridor :: "cell \<Rightarrow> cell \<Rightarrow> cell set" where
  "lCorridor s e =
     (\<lambda>a. (a, snd s)) ` {min (fst s) (fst e) .. max (fst s) (fst e)}
     \<union> (\<lambda>b. (fst e, b)) ` {min (snd s) (snd e) .. max (snd s) (snd e)}"

text \<open>
  Solvable from everywhere, as a test that runs: the search of the validator, started
  in turn from every path cell of the grid, reaches the exit each time.
\<close>

definition allCells :: "maze \<Rightarrow> cell list" where
  "allCells m = concat (map (\<lambda>x. map (\<lambda>y. (x, y)) [0 .. height m - 1]) [0 .. width m - 1])"

definition pathCells :: "maze \<Rightarrow> cell list" where
  "pathCells m = filter (isPath m) (allCells m)"

definition solvableFromEverywhere :: "maze \<Rightarrow> bool" where
  "solvableFromEverywhere m \<longleftrightarrow> list_all (\<lambda>c. bfs m {c} [c]) (pathCells m)"

section \<open>A maze with a junction\<close>

text \<open>
  A 5 by 5 maze, exit at \<open>(0, 0)\<close>: a corridor up the column \<open>x = 0\<close> to \<open>y = 3\<close>,
  then along the row \<open>y = 3\<close> to \<open>x = 4\<close>, with a dead end at \<open>(3, 4)\<close> above the
  junction \<open>(3, 3)\<close>. Every path cell is joined to the exit. The shift is due in half
  a second.
\<close>

definition junctionMaze :: maze where
  "junctionMaze = \<lparr>width = 5, height = 5, cellSize = 2, shiftInterval = 60, shiftChance = 2 / 10,
     mazeGrid = [ [False, False, False, False, True],
                 [True, True, True, False, True],
                 [True, True, True, False, True],
                 [True, True, True, False, False],
                 [True, True, True, False, True] ],
     exitPosition = (0, 0), nextShiftTime = 1 / 2,
     usePatternedGeneration = True, patternType = 0\<rparr>"

text \<open>The maze with the junction after its junction \<open>(3, 3)\<close> has become a wall.\<close>

definition walledJunctionMaze :: maze where
  "walledJunctionMaze = junctionMaze\<lparr>mazeGrid :=
         [ [False, False, False, False, True],
          [True, True, True, False, True],
          [True, True, True, False, True],
          [True, True, True, True, False],
          [True, True, True, False, True] ]\<rparr>"

section \<open>A maze with a walled-in exit\<close>

text \<open>
  A 5 by 5 maze, exit at \<open>(4, 4)\<close> with all its neighbours walls, and one other path
  cell, \<open>(0, 0)\<close>.
\<close>

definition blockedMaze :: maze where
  "blockedMaze = \<lparr>width = 5, height = 5, cellSize = 2, shiftInterval = 60, shiftChance = 2 / 10,
     mazeGrid = [ [False, True, True, True, True],
                 [True, True, True, True, True],
                 [True, True, True, True, True],
                 [True, True, True, True, True],
                 [True, True, True, True, False] ],
     exitPosition = (4, 4), nextShiftTime = 60,
     usePatternedGeneration = True, patternType = 0\<rparr>"

section \<open>Two of the refinement passes\<close>

text \<open>
  A \<open>for\<close> loop whose body does not use its counter, run \<open>k\<close> times on a state, and
  left at the first error.
\<close>

fun iterate :: "nat \<Rightarrow> ('s \<Rightarrow> error + 's) \<Rightarrow> 's \<Rightarrow> error + 's" where
  "iterate 0 f s = Inr s"
| "iterate (Suc k) f s = (case f s of Inl e \<Rightarrow> Inl e | Inr s' \<Rightarrow> iterate k f s')"

text \<open>
  \<open>addArchitecturalFeatures\<close>. The state of both loops is the number of draws made
  and the maze; \<open>pillarAt\<close> and \<open>archAt\<close> are the loop bodies after their draws.
  The reads and writes \<open>mazeGrid[x][y]\<close> of this method are not behind \<open>isInBounds\<close>: a column that does not exist is a \<open>TypeError\<close> at the first read that
  meets it (\<open>&&\<close> does not evaluate its right operand when the left one is false).
\<close>

definition pillarAt :: "nat \<Rightarrow> maze \<Rightarrow> int \<Rightarrow> int \<Rightarrow> error + nat \<times> maze" where
  "pillarAt n m x y =
     (if \<not> hasColumn (mazeGrid m) x then Inl TypeError
      else if \<not> isWall (mazeGrid m) x y \<and> adjacentPaths m x y \<ge> 3
      then Inr (n + 2, m\<lparr>mazeGrid := setCell (mazeGrid m) x y True\<rparr>)
      else Inr (n + 2, m))"

definition pillarStep :: "rng \<Rightarrow> nat \<times> maze \<Rightarrow> error + nat \<times> maze" where
  "pillarStep rng st =
     pillarAt (fst st) (snd st)
       (1 + \<lfloor>rng (fst st) * real_of_int (width (snd st) - 2)\<rfloor>)
       (1 + \<lfloor>rng (fst st + 1) * real_of_int (height (snd st) - 2)\<rfloor>)"

definition archAt :: "nat \<Rightarrow> maze \<Rightarrow> int \<Rightarrow> int \<Rightarrow> int \<Rightarrow> error + nat \<times> maze" where
  "archAt n m x y dirIndex =
     (if \<not> hasColumn (mazeGrid m) x then Inl TypeError
      else if dirIndex = 0
      then (if isWall (mazeGrid m) x y then Inr (n + 3, m)
            else if \<not> hasColumn (mazeGrid m) (x + 2) then Inl TypeError
            else if \<not> isWall (mazeGrid m) (x + 2) y
            then Inr (n + 3, m\<lparr>mazeGrid :=
                   setCell (setCell (setCell (mazeGrid m) x y True) (x + 2) y True) (x + 1) y False\<rparr>)
            else Inr (n + 3, m))
      else (if \<not> isWall (mazeGrid m) x y \<and> \<not> isWall (mazeGrid m) x (y + 2)
            then Inr (n + 3, m\<lparr>mazeGrid :=
                   setCell (setCell (setCell (mazeGrid m) x y True) x (y + 2) True) x (y + 1) False\<rparr>)
            else Inr (n + 3, m)))"

definition archStep :: "rng \<Rightarrow> nat \<times> maze \<Rightarrow> error + nat \<times> maze" where
  "archStep rng st =
     archAt (fst st) (snd st)
       (2 + \<lfloor>rng (fst st) * real_of_int (width (snd st) - 4)\<rfloor>)
       (2 + \<lfloor>rng (fst st + 1) * real_of_int (height (snd st) - 4)\<rfloor>)
       \<lfloor>rng (fst st + 2) * 2\<rfloor>"

definition addArchitecturalFeatures :: "rng \<Rightarrow> nat \<times> maze \<Rightarrow> error + nat \<times> maze" where
  "addArchitecturalFeatures rng st =
     (case iterate (nat ((width (snd st) * height (snd st)) div 40)) (pillarStep rng) st of
        Inl e \<Rightarrow> Inl e
      | Inr st1 \<Rightarrow> iterate (nat ((width (snd st1) * height (snd st1)) div 60)) (archStep rng) st1)"

text \<open>
  \<open>addRandomVariations\<close>; \<open>variationAt\<close> is the loop body after the draws of
  \<open>x\<close> and \<open>y\<close>. \<open>neighborPaths\<close> is the inner counter: the open neighbours
  of \<open>neighbor\<close> other than \<open>(x, y)\<close>. \<open>createDeadEnd\<close> starts true and is set to
  false at every open neighbour whose counter is at most 1. The draw against 0.3 is
  made only when \<open>createDeadEnd\<close> is true.
\<close>

definition neighborPaths :: "maze \<Rightarrow> int \<Rightarrow> int \<Rightarrow> cell \<Rightarrow> nat" where
  "neighborPaths m x y neighbor =
     length (filter (\<lambda>nDir. isPath m (fst neighbor + fst nDir, snd neighbor + snd nDir)
                          \<and> \<not> (fst neighbor + fst nDir = x \<and> snd neighbor + snd nDir = y))
               directions)"

definition createDeadEnd :: "maze \<Rightarrow> int \<Rightarrow> int \<Rightarrow> bool" where
  "createDeadEnd m x y \<longleftrightarrow>
     \<not> list_ex (\<lambda>dir. isPath m (x + fst dir, y + snd dir)
                      \<and> neighborPaths m x y (x + fst dir, y + snd dir) \<le> 1) directions"

definition variationAt :: "rng \<Rightarrow> nat \<Rightarrow> maze \<Rightarrow> int \<Rightarrow> int \<Rightarrow> error + nat \<times> maze" where
  "variationAt rng n m x y =
     (if distanceToExit m x y < 3 then Inr (n + 2, m)
      else if \<not> hasColumn (mazeGrid m) x then Inl TypeError
      else if isWall (mazeGrid m) x y \<and> adjacentPaths m x y \<ge> 3
      then Inr (n + 2, m\<lparr>mazeGrid := setCell (mazeGrid m) x y False\<rparr>)
      else if \<not> isWall (mazeGrid m) x y \<and> adjacentPaths m x y \<le> 1
      then (if createDeadEnd m x y
            then (if rng (n + 2) < 3 / 10
                  then Inr (n + 3, m\<lparr>mazeGrid := setCell (mazeGrid m) x y True\<rparr>)
                  else Inr (n + 3, m))
            else Inr (n + 2, m))
      else Inr (n + 2, m))"

definition variationStep :: "rng \<Rightarrow> nat \<times> maze \<Rightarrow> error + nat \<times> maze" where
  "variationStep rng st =
     variationAt rng (fst st) (snd st)
       (\<lfloor>rng (fst st) * real_of_int (width (snd st) - 2)\<rfloor> + 1)
       (\<lfloor>rng (fst st + 1) * real_of_int (height (snd st) - 2)\<rfloor> + 1)"

definition addRandomVariations :: "rng \<Rightarrow> nat \<times> maze \<Rightarrow> error + nat \<times> maze" where
  "addRandomVariations rng st =
     iterate (nat ((width (snd st) * height (snd st)) div 10)) (variationStep rng) st"

section \<open>The other two refinement passes\<close>

text \<open>
  \<open>createChambers\<close>. The count of chambers is the first draw; each round draws the
  centre and the size, skips the round when the centre is nearer than 5 to the exit,
  and otherwise clears the rectangle and, in a chamber at least 4 by 4, sets one or two
  pillars. Every write is behind \<open>isInBounds\<close>, so the pass throws nothing.
  \<open>Math.floor(chamberWidth / 2)\<close> is \<open>div 2\<close>.
\<close>

definition clearCell :: "maze \<Rightarrow> cell \<Rightarrow> maze" where
  "clearCell m c =
     (if isInBounds m c then m\<lparr>mazeGrid := setCell (mazeGrid m) (fst c) (snd c) False\<rparr> else m)"

definition clearChamber :: "maze \<Rightarrow> int \<Rightarrow> int \<Rightarrow> int \<Rightarrow> int \<Rightarrow> maze" where
  "clearChamber m centerX centerY chamberWidth chamberHeight =
     foldl (\<lambda>m x. foldl (\<lambda>m y. clearCell m (x, y)) m
                     [centerY - chamberHeight div 2 .. centerY + chamberHeight div 2])
       m [centerX - chamberWidth div 2 .. centerX + chamberWidth div 2]"

definition chamberPillar :: "rng \<Rightarrow> int \<Rightarrow> int \<Rightarrow> nat \<times> maze \<Rightarrow> nat \<times> maze" where
  "chamberPillar rng centerX centerY st =
     (let pillarX = centerX - 1 + \<lfloor>rng (fst st) * 3\<rfloor>;
          pillarY = centerY - 1 + \<lfloor>rng (fst st + 1) * 3\<rfloor>
      in if isInBounds (snd st) (pillarX, pillarY)
         then (fst st + 2, (snd st)\<lparr>mazeGrid := setCell (mazeGrid (snd st)) pillarX pillarY True\<rparr>)
         else (fst st + 2, snd st))"

definition chamberAt :: "rng \<Rightarrow> nat \<Rightarrow> maze \<Rightarrow> int \<Rightarrow> int \<Rightarrow> int \<Rightarrow> int \<Rightarrow> nat \<times> maze" where
  "chamberAt rng n m centerX centerY chamberWidth chamberHeight =
     (if sqrt (real_of_int ((centerX - fst (exitPosition m))\<^sup>2 + (centerY - snd (exitPosition m))\<^sup>2)) < 5
      then (n, m)
      else if chamberWidth \<ge> 4 \<and> chamberHeight \<ge> 4
      then ((chamberPillar rng centerX centerY) ^^ nat (1 + \<lfloor>rng n * 2\<rfloor>))
             (n + 1, clearChamber m centerX centerY chamberWidth chamberHeight)
      else (n, clearChamber m centerX centerY chamberWidth chamberHeight))"

definition chamberStep :: "rng \<Rightarrow> nat \<times> maze \<Rightarrow> nat \<times> maze" where
  "chamberStep rng st =
     chamberAt rng (fst st + 4) (snd st)
       (2 + \<lfloor>rng (fst st) * real_of_int (width (snd st) - 4)\<rfloor>)
       (2 + \<lfloor>rng (fst st + 1) * real_of_int (height (snd st) - 4)\<rfloor>)
       (3 + \<lfloor>rng (fst st + 2) * 3\<rfloor>)
       (3 + \<lfloor>rng (fst st + 3) * 3\<rfloor>)"

definition createChambers :: "rng \<Rightarrow> nat \<times> maze \<Rightarrow> nat \<times> maze" where
  "createChambers rng st =
     ((chamberStep rng) ^^ nat (2 + \<lfloor>rng (fst st) * 3\<rfloor>)) (fst st + 1, snd st)"

text \<open>
  \<open>createWiderCorridors\<close>. \<open>widenSide\<close> is one of the four tests
  \<open>isInBounds(c) && Math.random() < 0.7\<close> with its write: the draw is made only for a
  cell inside the grid. \<open>corridorCell\<close> is the body of the inner loop at step \<open>j\<close>,
  \<open>corridorAt\<close> the body of the outer loop after the draws of its start. The start is
  read without a bounds test, so a missing column is a \<open>TypeError\<close>.
\<close>

definition widenSide :: "rng \<Rightarrow> nat \<times> maze \<Rightarrow> cell \<Rightarrow> nat \<times> maze" where
  "widenSide rng st c =
     (if isInBounds (snd st) c
      then (if rng (fst st) < 7 / 10
            then (fst st + 1, (snd st)\<lparr>mazeGrid := setCell (mazeGrid (snd st)) (fst c) (snd c) False\<rparr>)
            else (fst st + 1, snd st))
      else st)"

definition corridorCell :: "rng \<Rightarrow> int \<Rightarrow> int \<Rightarrow> cell \<Rightarrow> nat \<times> maze \<Rightarrow> int \<Rightarrow> nat \<times> maze" where
  "corridorCell rng startX startY dir st j =
     (let x = startX + fst dir * j; y = startY + snd dir * j
      in if isInBounds (snd st) (x, y)
         then (let st1 = (fst st, (snd st)\<lparr>mazeGrid := setCell (mazeGrid (snd st)) x y False\<rparr>)
               in if fst dir = 0
                  then widenSide rng (widenSide rng st1 (x + 1, y)) (x - 1, y)
                  else widenSide rng (widenSide rng st1 (x, y + 1)) (x, y - 1))
         else st)"

definition corridorAt :: "rng \<Rightarrow> nat \<Rightarrow> maze \<Rightarrow> int \<Rightarrow> int \<Rightarrow> error + nat \<times> maze" where
  "corridorAt rng n m startX startY =
     (if \<not> hasColumn (mazeGrid m) startX then Inl TypeError
      else if \<not> isWall (mazeGrid m) startX startY
      then Inr (foldl (corridorCell rng startX startY (directions ! nat \<lfloor>rng n * 4\<rfloor>))
                  (n + 2, m) [0 .. 2 + \<lfloor>rng (n + 1) * 4\<rfloor> - 1])
      else Inr (n, m))"

definition corridorStep :: "rng \<Rightarrow> nat \<times> maze \<Rightarrow> error + nat \<times> maze" where
  "corridorStep rng st =
     corridorAt rng (fst st + 2) (snd st)
       (1 + \<lfloor>rng (fst st) * real_of_int (width (snd st) - 2)\<rfloor>)
       (1 + \<lfloor>rng (fst st + 1) * real_of_int (height (snd st) - 2)\<rfloor>)"

definition createWiderCorridors :: "rng \<Rightarrow> nat \<times> maze \<Rightarrow> error + nat \<times> maze" where
  "createWiderCorridors rng st =
     iterate (nat ((width (snd st) * height (snd st)) div 30)) (corridorStep rng) st"

text \<open>
  An 8 by 8 maze of walls with the exit \<open>(0, 0)\<close> open, and draws for two chamber
  rounds: a 5 by 5 chamber centred at \<open>(3, 4)\<close>, at distance 5 from the exit, with one
  pillar, then a round skipped for its centre \<open>(2, 2)\<close>.
\<close>

definition cornerMaze :: maze where
  "cornerMaze = \<lparr>width = 8, height = 8, cellSize = 2, shiftInterval = 60, shiftChance = 2 / 10,
     mazeGrid = [False, True, True, True, True, True, True, True]
                # replicate 7 [True, True, True, True, True, True, True, True],
     exitPosition = (0, 0), nextShiftTime = 60,
     usePatternedGeneration = True, patternType = 0\<rparr>"

definition chamberDraws :: rng where
  "chamberDraws i = (if i = 1 then 1 / 4 else if i = 2 then 1 / 2
                     else if i = 3 \<or> i = 4 then 7 / 10 else 0)"

text \<open>
  Draws for two widening rounds on the maze with a corridor to the exit: a run of
  length 2 to the right from \<open>(5, 3)\<close>, every side cell cleared, then a round that
  starts on the wall \<open>(1, 1)\<close>.
\<close>

definition widenDraws :: rng where
  "widenDraws i = (if i = 0 then 7 / 10 else if i = 1 then 4 / 10 else if i = 2 then 3 / 10 else 0)"

section \<open>A maze with a corridor to the exit\<close>

text \<open>An 8 by 8 maze whose only path cells are the row \<open>y = 3\<close>; the exit is \<open>(7, 3)\<close>.\<close>

definition corridorMaze :: maze where
  "corridorMaze = \<lparr>width = 8, height = 8, cellSize = 2, shiftInterval = 60, shiftChance = 2 / 10,
     mazeGrid = replicate 8 [True, True, True, False, True, True, True, True],
     exitPosition = (7, 3), nextShiftTime = 60,
     usePatternedGeneration = True, patternType = 0\<rparr>"

text \<open>
  Draws for one pillar round and one arch round: the pillar round looks at \<open>(1, 1)\<close>,
  the arch round at \<open>(5, 3)\<close>, horizontally.
\<close>

definition archDraws :: rng where
  "archDraws i = (if i = 2 then 9 / 10 else if i = 3 then 3 / 10 else if i = 4 then 1 / 10 else 0)"

text \<open>The maze with a corridor after that arch round: \<open>(5, 3)\<close> and the exit are walls.\<close>

definition archedCorridorMaze :: maze where
  "archedCorridorMaze = corridorMaze\<lparr>mazeGrid :=
         [ [True, True, True, False, True, True, True, True],
          [True, True, True, False, True, True, True, True],
          [True, True, True, False, True, True, True, True],
          [True, True, True, False, True, True, True, True],
          [True, True, True, False, True, True, True, True],
          [True, True, True, True, True, True, True, True],
          [True, True, True, False, True, True, True, True],
          [True, True, True, True, True, True, True, True] ]\<rparr>"

section \<open>\<open>createExit\<close> and \<open>generateMaze\<close>\<close>





section \<open>Three more mazes\<close>

text \<open>
  A 7 by 7 maze, exit at \<open>(6, 3)\<close>, solvable from everywhere, in which the wall
  \<open>(4, 1)\<close> has the three open neighbours \<open>(4, 0)\<close>, \<open>(4, 2)\<close> and \<open>(5, 1)\<close>; and the
  same maze after a shift firing that opens \<open>(1, 1)\<close> and is repaired from there.
\<close>

definition shortcutMaze :: maze where
  "shortcutMaze = \<lparr>width = 7, height = 7, cellSize = 2, shiftInterval = 60, shiftChance = 2 / 10,
     mazeGrid = [ [True, True, True, True, True, True, True],
                 [True, True, True, True, True, True, True],
                 [True, True, True, True, True, True, True],
                 [True, True, True, True, True, True, True],
                 [False, True, False, True, True, True, True],
                 [False, False, False, False, True, True, True],
                 [True, True, True, False, True, True, True] ],
     exitPosition = (6, 3), nextShiftTime = 60,
     usePatternedGeneration = True, patternType = 0\<rparr>"

definition repairedShortcutMaze :: maze where
  "repairedShortcutMaze = shortcutMaze\<lparr>mazeGrid :=
         [ [True, True, True, True, True, True, True],
          [True, False, True, True, True, True, True],
          [True, False, True, True, True, True, True],
          [True, False, True, True, True, True, True],
          [False, False, False, True, True, True, True],
          [False, False, False, False, True, True, True],
          [True, False, False, False, True, True, True] ]\<rparr>"


section \<open>Notions used in the proofs\<close>

text \<open>\<open>sameShape g g'\<close>: as many columns, and each column as long.\<close>

definition sameShape :: "grid \<Rightarrow> grid \<Rightarrow> bool" where
  "sameShape g g' \<longleftrightarrow> length g' = length g \<and> (\<forall>i. length (g' ! i) = length (g ! i))"

text \<open>
  \<open>stepsTo x ex a\<close>: \<open>a\<close> is one of the positions a loop takes that starts at \<open>x\<close>
  and steps towards \<open>ex\<close>: after \<open>x\<close>, up to and including \<open>ex\<close>.
\<close>

definition stepsTo :: "int \<Rightarrow> int \<Rightarrow> int \<Rightarrow> bool" where
  "stepsTo x ex a \<longleftrightarrow> (x < a \<and> a \<le> ex) \<or> (ex \<le> a \<and> a < x)"

text \<open>\<open>onlyCleared g g'\<close>: the same shape, and every wall of \<open>g'\<close> was a wall of \<open>g\<close>.\<close>

definition onlyCleared :: "grid \<Rightarrow> grid \<Rightarrow> bool" where
  "onlyCleared g g' \<longleftrightarrow>
     sameShape g g' \<and> (\<forall>a b. hasColumn g a \<longrightarrow> isWall g' a b \<longrightarrow> isWall g a b)"

text \<open>The path cells one step from \<open>c\<close> in one of the directions \<open>ds\<close>.\<close>

definition openNeighbours :: "maze \<Rightarrow> cell \<Rightarrow> cell list \<Rightarrow> cell set" where
  "openNeighbours m c ds = {n. \<exists>d\<in>set ds. n = (fst c + fst d, snd c + snd d) \<and> isPath m n}"

text \<open>
  The invariant of the search from \<open>s\<close>: queued cells are visited; visited cells are
  path cells joined to \<open>s\<close>; a visited cell that has left the queue is not the exit
  and has all its open neighbours visited.
\<close>

definition bfsInv :: "maze \<Rightarrow> cell \<Rightarrow> cell set \<Rightarrow> cell list \<Rightarrow> bool" where
  "bfsInv m s visited queue \<longleftrightarrow>
     set queue \<subseteq> visited \<and> s \<in> visited
     \<and> (\<forall>c\<in>visited. isPath m c \<and> pathConnected m s c)
     \<and> (\<forall>c\<in>visited - set queue. c \<noteq> exitPosition m \<and> (\<forall>d. pathStep m c d \<longrightarrow> d \<in> visited))"

text \<open>
  What holds of every entry \<open>(x, y, toWall)\<close> of \<open>wallsToShift\<close>: an interior cell,
  not nearer than 3 to the exit, that passed the test of its kind in the grid \<open>m\<close>.
\<close>

definition shiftEntryOk :: "maze \<Rightarrow> int \<times> int \<times> bool \<Rightarrow> bool" where
  "shiftEntryOk m w \<longleftrightarrow>
     1 \<le> fst w \<and> fst w \<le> width m - 2 \<and> 1 \<le> fst (snd w) \<and> fst (snd w) \<le> height m - 2
     \<and> \<not> distanceToExit m (fst w) (fst (snd w)) < 3
     \<and> (if snd (snd w)
        then \<not> isWall (mazeGrid m) (fst w) (fst (snd w)) \<and> 3 \<le> adjacentPaths m (fst w) (fst (snd w))
        else isWall (mazeGrid m) (fst w) (fst (snd w)) \<and> adjacentPaths m (fst w) (fst (snd w)) \<le> 2)"

text \<open>\<open>exclusionKept m m'\<close>: same exit, same shape, and no cell nearer than 3 to the exit differs.\<close>

definition exclusionKept :: "maze \<Rightarrow> maze \<Rightarrow> bool" where
  "exclusionKept m m' \<longleftrightarrow>
     exitPosition m' = exitPosition m \<and> width m' = width m \<and> height m' = height m
     \<and> sameShape (mazeGrid m) (mazeGrid m')
     \<and> (\<forall>a b. hasColumn (mazeGrid m) a \<and> distanceToExit m a b < 3
           \<longrightarrow> isWall (mazeGrid m') a b = isWall (mazeGrid m) a b)"



section \<open>Grid reads and writes\<close>

lemma setCell_length [simp]: "length (setCell g x y v) = length g"
  by (simp add: setCell_def)

lemma hasColumn_setCell [simp]: "hasColumn (setCell g x y v) a = hasColumn g a"
  by (simp add: hasColumn_def)

lemma setCell_col_length [simp]: "length (setCell g x y v ! i) = length (g ! i)"
  by (cases "i < length g") (auto simp: setCell_def nth_list_update)

lemma isWall_setCell:
  "hasColumn g a \<Longrightarrow>
   isWall (setCell g x y v) a b
     = (if a = x \<and> b = y \<and> 0 \<le> y \<and> y < int (length (g ! nat x)) then v else isWall g a b)"
  by (auto simp: isWall_def setCell_def hasColumn_def nth_list_update nat_eq_iff split: if_splits)

lemma isWall_setCell_False:
  "hasColumn g a \<Longrightarrow>
   isWall (setCell g x y False) a b = (isWall g a b \<and> \<not> (a = x \<and> b = y))"
  by (auto simp: isWall_setCell) (auto simp: isWall_def)

lemma sameShape_refl [simp]: "sameShape g g"
  by (simp add: sameShape_def)

lemma sameShape_setCell: "sameShape (setCell g x y v) g' \<Longrightarrow> sameShape g g'"
  by (simp add: sameShape_def)

lemma hasColumn_sameShape: "sameShape g g' \<Longrightarrow> hasColumn g' a = hasColumn g a"
  by (simp add: sameShape_def hasColumn_def)

lemma carveRow_result:
  assumes "hasColumn g x" "hasColumn g ex"
    and "(x < ex \<longrightarrow> stepX = 1) \<and> (ex < x \<longrightarrow> stepX = -1)"
  shows "\<exists>g'. carveRow g x stepX ex sy = Some (Inr g') \<and> sameShape g g'
     \<and> (\<forall>a b. hasColumn g a \<longrightarrow>
           isWall g' a b = (isWall g a b \<and> \<not> (b = sy \<and> stepsTo x ex a)))"
  using assms
proof (induction "nat \<bar>ex - x\<bar>" arbitrary: g x)
  case 0
  then have "x = ex" by simp
  then show ?case
    by (subst carveRow.simps) (auto simp: stepsTo_def)
next
  case (Suc n)
  then have ne: "x \<noteq> ex" by auto
  let ?x = "x + stepX"
  let ?g = "setCell g ?x sy False"
  have col: "hasColumn g ?x"
    using Suc.prems ne by (auto simp: hasColumn_def)
  have n: "n = nat \<bar>ex - ?x\<bar>"
    using Suc.hyps(2) Suc.prems(3) ne by (cases "x < ex") auto
  have dir: "(?x < ex \<longrightarrow> stepX = 1) \<and> (ex < ?x \<longrightarrow> stepX = -1)"
    using Suc.prems(3) ne by (cases "x < ex") auto
  from Suc.hyps(1) [OF n, of ?g] col Suc.prems(2) dir
  obtain g' where g': "carveRow ?g ?x stepX ex sy = Some (Inr g')" "sameShape ?g g'"
    and cells: "\<forall>a b. hasColumn ?g a \<longrightarrow>
           isWall g' a b = (isWall ?g a b \<and> \<not> (b = sy \<and> stepsTo ?x ex a))"
    by auto
  have run: "carveRow g x stepX ex sy = Some (Inr g')"
    using ne col g'(1) by (subst carveRow.simps) simp
  have st: "\<And>a. stepsTo x ex a \<longleftrightarrow> a = ?x \<or> stepsTo ?x ex a"
    using Suc.prems(3) ne by (cases "x < ex") (auto simp: stepsTo_def)
  have "isWall g' a b = (isWall g a b \<and> \<not> (b = sy \<and> stepsTo x ex a))" if "hasColumn g a" for a b
    using cells that st [of a] by (auto simp: isWall_setCell_False)
  with run g'(2) show ?case
    by (auto dest: sameShape_setCell)
qed

lemma carveCol_result:
  assumes "hasColumn g ex"
    and "(y < ey \<longrightarrow> stepY = 1) \<and> (ey < y \<longrightarrow> stepY = -1)"
  shows "\<exists>g'. carveCol g y stepY ex ey = Some (Inr g') \<and> sameShape g g'
     \<and> (\<forall>a b. hasColumn g a \<longrightarrow>
           isWall g' a b = (isWall g a b \<and> \<not> (a = ex \<and> stepsTo y ey b)))"
  using assms
proof (induction "nat \<bar>ey - y\<bar>" arbitrary: g y)
  case 0
  then have "y = ey" by simp
  then show ?case
    by (subst carveCol.simps) (auto simp: stepsTo_def)
next
  case (Suc n)
  then have ne: "y \<noteq> ey" by auto
  let ?y = "y + stepY"
  let ?g = "setCell g ex ?y False"
  have n: "n = nat \<bar>ey - ?y\<bar>"
    using Suc.hyps(2) Suc.prems(2) ne by (cases "y < ey") auto
  have dir: "(?y < ey \<longrightarrow> stepY = 1) \<and> (ey < ?y \<longrightarrow> stepY = -1)"
    using Suc.prems(2) ne by (cases "y < ey") auto
  from Suc.hyps(1) [OF n, of ?g] Suc.prems(1) dir
  obtain g' where g': "carveCol ?g ?y stepY ex ey = Some (Inr g')" "sameShape ?g g'"
    and cells: "\<forall>a b. hasColumn ?g a \<longrightarrow>
           isWall g' a b = (isWall ?g a b \<and> \<not> (a = ex \<and> stepsTo ?y ey b))"
    by auto
  have run: "carveCol g y stepY ex ey = Some (Inr g')"
    using ne Suc.prems(1) g'(1) by (subst carveCol.simps) simp
  have st: "\<And>b. stepsTo y ey b \<longleftrightarrow> b = ?y \<or> stepsTo ?y ey b"
    using Suc.prems(2) ne by (cases "y < ey") (auto simp: stepsTo_def)
  have "isWall g' a b = (isWall g a b \<and> \<not> (a = ex \<and> stepsTo y ey b))" if "hasColumn g a" for a b
    using cells that st [of b] by (auto simp: isWall_setCell_False)
  with run g'(2) show ?case
    by (auto dest: sameShape_setCell)
qed

section \<open>The repair only clears cells\<close>

lemma onlyCleared_refl [simp]: "onlyCleared g g"
  by (simp add: onlyCleared_def)

lemma onlyCleared_trans: "onlyCleared g g1 \<Longrightarrow> onlyCleared g1 g2 \<Longrightarrow> onlyCleared g g2"
  unfolding onlyCleared_def
  by (auto simp: hasColumn_sameShape) (auto simp: sameShape_def)

lemma onlyCleared_setCell: "onlyCleared g (setCell g x y False)"
  by (simp add: onlyCleared_def isWall_setCell_False sameShape_def)

lemma carveRow_onlyCleared:
  assumes "carveRow g cx stepX ex sy = Some r"
  shows "\<forall>g'. r = Inr g' \<longrightarrow> onlyCleared g g'"
proof (rule carveRow.raw_induct [where P = "\<lambda>g cx stepX ex sy r. \<forall>g'. r = Inr g' \<longrightarrow> onlyCleared g g'"])
  show "carveRow g cx stepX ex sy = Some r"
    by (rule assms)
next
  fix f :: "grid \<Rightarrow> int \<Rightarrow> int \<Rightarrow> int \<Rightarrow> int \<Rightarrow> (error + grid) option"
    and g cx stepX ex sy r
  assume IH: "\<And>g cx stepX ex sy r. f g cx stepX ex sy = Some r \<Longrightarrow> \<forall>g'. r = Inr g' \<longrightarrow> onlyCleared g g'"
    and run: "(if cx \<noteq> ex
               then if hasColumn g (cx + stepX)
                    then f (setCell g (cx + stepX) sy False) (cx + stepX) stepX ex sy
                    else Some (Inl TypeError)
               else Some (Inr g)) = Some r"
  show "\<forall>g'. r = Inr g' \<longrightarrow> onlyCleared g g'"
  proof (cases "cx \<noteq> ex \<and> hasColumn g (cx + stepX)")
    case True
    with run have "f (setCell g (cx + stepX) sy False) (cx + stepX) stepX ex sy = Some r"
      by simp
    from IH [OF this] show ?thesis
      using onlyCleared_trans [OF onlyCleared_setCell] by blast
  next
    case False
    with run show ?thesis
      by (auto split: if_splits)
  qed
qed

lemma carveCol_onlyCleared:
  assumes "carveCol g cy stepY ex ey = Some r"
  shows "\<forall>g'. r = Inr g' \<longrightarrow> onlyCleared g g'"
proof (rule carveCol.raw_induct [where P = "\<lambda>g cy stepY ex ey r. \<forall>g'. r = Inr g' \<longrightarrow> onlyCleared g g'"])
  show "carveCol g cy stepY ex ey = Some r"
    by (rule assms)
next
  fix f :: "grid \<Rightarrow> int \<Rightarrow> int \<Rightarrow> int \<Rightarrow> int \<Rightarrow> (error + grid) option"
    and g cy stepY ex ey r
  assume IH: "\<And>g cy stepY ex ey r. f g cy stepY ex ey = Some r \<Longrightarrow> \<forall>g'. r = Inr g' \<longrightarrow> onlyCleared g g'"
    and run: "(if cy \<noteq> ey
               then if hasColumn g ex
                    then f (setCell g ex (cy + stepY) False) (cy + stepY) stepY ex ey
                    else Some (Inl TypeError)
               else Some (Inr g)) = Some r"
  show "\<forall>g'. r = Inr g' \<longrightarrow> onlyCleared g g'"
  proof (cases "cy \<noteq> ey \<and> hasColumn g ex")
    case True
    with run have "f (setCell g ex (cy + stepY) False) (cy + stepY) stepY ex ey = Some r"
      by simp
    from IH [OF this] show ?thesis
      using onlyCleared_trans [OF onlyCleared_setCell] by blast
  next
    case False
    with run show ?thesis
      by (auto split: if_splits)
  qed
qed

lemma createPathToExit_onlyCleared:
  assumes "createPathToExit m s = Some (Inr m')"
  shows "onlyCleared (mazeGrid m) (mazeGrid m') \<and> m' = m\<lparr>mazeGrid := mazeGrid m'\<rparr>"
  using assms
  by (auto simp: createPathToExit_def Let_def split: option.splits sum.splits
      dest!: carveRow_onlyCleared carveCol_onlyCleared intro: onlyCleared_trans)

section \<open>Correctness of the breadth-first search\<close>

lemma adjacent_directions:
  "adjacent c n \<longleftrightarrow> (\<exists>d\<in>set directions. n = (fst c + fst d, snd c + snd d))"
proof -
  obtain cx cy nx ny where [simp]: "c = (cx, cy)" "n = (nx, ny)"
    by (cases c, cases n) auto
  show ?thesis
    by (auto simp: adjacent_def directions_def)
qed

lemma visitNeighbor_fst:
  "fst (visitNeighbor m c st d) = fst st \<union> openNeighbours m c [d]"
  by (auto simp: visitNeighbor_def openNeighbours_def isPath_def Let_def)

lemma visitNeighbor_snd:
  "set (snd (visitNeighbor m c st d)) = set (snd st) \<union> (openNeighbours m c [d] - fst st)"
  by (auto simp: visitNeighbor_def openNeighbours_def isPath_def Let_def)

lemma openNeighbours_Cons:
  "openNeighbours m c (d # ds) = openNeighbours m c [d] \<union> openNeighbours m c ds"
  by (auto simp: openNeighbours_def)

lemma visitAll_sets:
  "fst (foldl (visitNeighbor m c) st ds) = fst st \<union> openNeighbours m c ds
   \<and> set (snd (foldl (visitNeighbor m c) st ds)) = set (snd st) \<union> (openNeighbours m c ds - fst st)"
proof (induction ds arbitrary: st)
  case Nil
  show ?case by (simp add: openNeighbours_def)
next
  case (Cons d ds)
  show ?case
    using Cons.IH [of "visitNeighbor m c st d"]
    by (simp add: visitNeighbor_fst visitNeighbor_snd openNeighbours_Cons [of m c d ds]) blast
qed

lemma pathStep_openNeighbours:
  "pathStep m c n \<longleftrightarrow> isPath m c \<and> n \<in> openNeighbours m c directions"
  by (auto simp: pathStep_def adjacent_directions openNeighbours_def)

lemma bfsInv_step:
  assumes inv: "bfsInv m s visited (current # queue)" and ne: "current \<noteq> exitPosition m"
  shows "bfsInv m s (fst (foldl (visitNeighbor m current) (visited, queue) directions))
                    (snd (foldl (visitNeighbor m current) (visited, queue) directions))"
proof -
  let ?N = "openNeighbours m current directions"
  let ?v = "fst (foldl (visitNeighbor m current) (visited, queue) directions)"
  let ?q = "snd (foldl (visitNeighbor m current) (visited, queue) directions)"
  have v: "?v = visited \<union> ?N" and q: "set ?q = set queue \<union> (?N - visited)"
    using visitAll_sets [of m current "(visited, queue)" directions] by simp_all
  have cur: "current \<in> visited" "isPath m current" "pathConnected m s current"
    using inv by (auto simp: bfsInv_def)
  have N: "isPath m n \<and> pathConnected m s n" if "n \<in> ?N" for n
  proof -
    have st: "pathStep m current n"
      using that cur(2) by (simp add: pathStep_openNeighbours)
    then have "pathConnected m s n"
      using cur(3) unfolding pathConnected_def by (rule rtranclp.rtrancl_into_rtrancl [rotated])
    with st show ?thesis
      by (simp add: pathStep_def)
  qed
  have closed: "c \<noteq> exitPosition m \<and> (\<forall>d. pathStep m c d \<longrightarrow> d \<in> ?v)" if "c \<in> ?v - set ?q" for c
  proof (cases "c = current")
    case True
    then show ?thesis
      using ne v by (auto simp: pathStep_openNeighbours)
  next
    case False
    with that v q have "c \<in> visited - set (current # queue)" by auto
    then show ?thesis
      using inv v by (auto simp: bfsInv_def)
  qed
  show ?thesis
    unfolding bfsInv_def
  proof (intro conjI ballI)
    show "set ?q \<subseteq> ?v" using inv v q by (auto simp: bfsInv_def)
    show "s \<in> ?v" using inv v by (auto simp: bfsInv_def)
    show "isPath m c" if "c \<in> ?v" for c using that inv v N [of c] by (auto simp: bfsInv_def)
    show "pathConnected m s c" if "c \<in> ?v" for c using that inv v N [of c] by (auto simp: bfsInv_def)
    show "c \<noteq> exitPosition m" if "c \<in> ?v - set ?q" for c using closed [OF that] by simp
    show "\<forall>d. pathStep m c d \<longrightarrow> d \<in> ?v" if "c \<in> ?v - set ?q" for c using closed [OF that] by simp
  qed
qed

lemma bfs_correct:
  "bfsInv m s visited queue \<Longrightarrow> bfs m visited queue \<longleftrightarrow> pathConnected m s (exitPosition m)"
proof (induction m visited queue rule: bfs.induct)
  case (1 m visited)
  have closed: "\<And>c d. c \<in> visited \<Longrightarrow> pathStep m c d \<Longrightarrow> d \<in> visited"
    and noexit: "exitPosition m \<notin> visited" and s: "s \<in> visited"
    using "1.prems" by (auto simp: bfsInv_def)
  have reach: "c \<in> visited" if "(pathStep m)\<^sup>*\<^sup>* s c" for c
    using that by (induction rule: rtranclp_induct) (auto intro: s closed)
  have "\<not> pathConnected m s (exitPosition m)"
    using noexit reach [of "exitPosition m"] by (auto simp: pathConnected_def)
  then show ?case by (simp add: bfs.simps)
next
  case (2 m visited current queue)
  show ?case
  proof (cases "current = exitPosition m")
    case True
    then show ?thesis
      using "2.prems" by (auto simp: bfsInv_def bfs.simps)
  next
    case False
    then show ?thesis
      using "2.IH" [OF False bfsInv_step [OF "2.prems" False] ] by (simp add: bfs.simps)
  qed
qed

lemma bfs_from_start:
  assumes "isPath m s"
  shows "bfs m {s} [s] \<longleftrightarrow> pathConnected m s (exitPosition m)"
proof (rule bfs_correct)
  show "bfsInv m s {s} [s]"
    using assms by (simp add: bfsInv_def pathConnected_def)
qed

section \<open>The start cell and the carved corridor\<close>

lemma scanColumn_Some:
  "scanColumn m x y = Some c \<Longrightarrow> 0 \<le> y \<Longrightarrow>
     fst c = x \<and> 0 \<le> snd c \<and> snd c < height m
     \<and> \<not> isWall (mazeGrid m) x (snd c) \<and> c \<noteq> exitPosition m"
proof (induction m x y rule: scanColumn.induct)
  case (1 m x y)
  have lt: "y < height m"
    using "1.prems"(1) by (subst (asm) scanColumn.simps) (simp split: if_splits)
  show ?case
  proof (cases "\<not> isWall (mazeGrid m) x y
          \<and> (x \<noteq> fst (exitPosition m) \<or> y \<noteq> snd (exitPosition m))")
    case True
    then have "c = (x, y)"
      using "1.prems"(1) lt by (subst (asm) scanColumn.simps) simp
    then show ?thesis
      using True lt "1.prems"(2) by (cases "exitPosition m") auto
  next
    case False
    then have "scanColumn m x (y + 1) = Some c"
      using "1.prems"(1) lt by (subst (asm) scanColumn.simps) (auto split: if_splits)
    then show ?thesis
      using "1.IH" [OF lt False] "1.prems"(2) by simp
  qed
qed

lemma findStartCell_Some:
  "findStartCell m x = Some c \<Longrightarrow> 0 \<le> x \<Longrightarrow> isPath m c \<and> c \<noteq> exitPosition m"
proof (induction m x rule: findStartCell.induct)
  case (1 m x)
  from "1.prems"(1) have lt: "x < width m"
    by (subst (asm) findStartCell.simps) (simp split: if_splits)
  show ?case
  proof (cases "scanColumn m x 0")
    case None
    then have "findStartCell m (x + 1) = Some c"
      using "1.prems"(1) lt by (subst (asm) findStartCell.simps) simp
    then show ?thesis
      using "1.IH" [OF lt None] "1.prems"(2) by simp
  next
    case (Some d)
    then have "d = c"
      using "1.prems"(1) lt by (subst (asm) findStartCell.simps) simp
    with Some scanColumn_Some [of m x 0 c] lt "1.prems"(2) show ?thesis
      by (simp add: isPath_def isInBounds_def)
  qed
qed

lemma lCorridor_iff:
  "c \<in> lCorridor s e \<longleftrightarrow>
     c = s \<or> (snd c = snd s \<and> stepsTo (fst s) (fst e) (fst c))
           \<or> (fst c = fst e \<and> stepsTo (snd s) (snd e) (snd c))"
proof -
  obtain cx cy sx sy ex ey where [simp]: "c = (cx, cy)" "s = (sx, sy)" "e = (ex, ey)"
    by (cases c, cases s, cases e) auto
  show ?thesis
    by (auto simp: lCorridor_def stepsTo_def min_def max_def image_iff)
qed

lemma wfGrid_sameShape:
  "wfGrid m \<Longrightarrow> sameShape (mazeGrid m) g' \<Longrightarrow> wfGrid (m\<lparr>mazeGrid := g'\<rparr>)"
  by (auto simp: wfGrid_def sameShape_def list_all_length)

lemma hasColumn_inBounds: "wfGrid m \<Longrightarrow> isInBounds m c \<Longrightarrow> hasColumn (mazeGrid m) (fst c)"
  by (simp add: wfGrid_def isInBounds_def hasColumn_def)

lemma createPathToExit_result:
  assumes wf: "wfMaze m" and s: "isInBounds m s"
  shows "\<exists>g'. createPathToExit m s = Some (Inr (m\<lparr>mazeGrid := g'\<rparr>))
     \<and> sameShape (mazeGrid m) g'
     \<and> (\<forall>c. isInBounds m c \<longrightarrow>
           isWall g' (fst c) (snd c)
             = (isWall (mazeGrid m) (fst c) (snd c)
                \<and> \<not> (snd c = snd s \<and> stepsTo (fst s) (fst (exitPosition m)) (fst c))
                \<and> \<not> (fst c = fst (exitPosition m) \<and> stepsTo (snd s) (snd (exitPosition m)) (snd c))))"
proof -
  let ?g = "mazeGrid m"
  let ?ex = "fst (exitPosition m)" and ?ey = "snd (exitPosition m)"
  let ?stepX = "if ?ex - fst s > 0 then 1 else - 1 :: int"
  let ?stepY = "if ?ey - snd s > 0 then 1 else - 1 :: int"
  have wfg: "wfGrid m" and e: "isInBounds m (exitPosition m)"
    using wf by (simp_all add: wfMaze_def)
  have cs: "hasColumn ?g (fst s)" and ce: "hasColumn ?g ?ex"
    using wfg s e by (simp_all add: hasColumn_inBounds)
  from carveRow_result [OF cs ce, of ?stepX "snd s"]
  obtain g1 where r1: "carveRow ?g (fst s) ?stepX ?ex (snd s) = Some (Inr g1)"
    and sh1: "sameShape ?g g1"
    and c1: "\<And>a b. hasColumn ?g a \<Longrightarrow>
       isWall g1 a b = (isWall ?g a b \<and> \<not> (b = snd s \<and> stepsTo (fst s) ?ex a))"
    by auto
  have ce1: "hasColumn g1 ?ex"
    using ce sh1 by (simp add: hasColumn_sameShape)
  from carveCol_result [OF ce1, of "snd s" ?ey ?stepY]
  obtain g2 where r2: "carveCol g1 (snd s) ?stepY ?ex ?ey = Some (Inr g2)"
    and sh2: "sameShape g1 g2"
    and c2: "\<And>a b. hasColumn g1 a \<Longrightarrow>
       isWall g2 a b = (isWall g1 a b \<and> \<not> (a = ?ex \<and> stepsTo (snd s) ?ey b))"
    by auto
  have run: "createPathToExit m s = Some (Inr (m\<lparr>mazeGrid := g2\<rparr>))"
    using r1 r2 by (simp add: createPathToExit_def Let_def)
  have sh: "sameShape ?g g2"
    using sh1 sh2 by (simp add: sameShape_def)
  have cells: "isWall g2 (fst c) (snd c)
             = (isWall ?g (fst c) (snd c)
                \<and> \<not> (snd c = snd s \<and> stepsTo (fst s) ?ex (fst c))
                \<and> \<not> (fst c = ?ex \<and> stepsTo (snd s) ?ey (snd c)))" if "isInBounds m c" for c
  proof -
    have col: "hasColumn ?g (fst c)"
      using wfg that by (rule hasColumn_inBounds)
    then have "hasColumn g1 (fst c)"
      using sh1 by (simp add: hasColumn_sameShape)
    then show ?thesis
      using c2 [of "fst c" "snd c"] c1 [OF col, of "snd c"] by auto
  qed
  from run sh cells show ?thesis by blast
qed

lemma isInBounds_grid_update [simp]: "isInBounds (m\<lparr>mazeGrid := g\<rparr>) c = isInBounds m c"
  by (simp add: isInBounds_def)

lemma row_connected:
  "(\<And>a. min x1 x2 \<le> a \<Longrightarrow> a \<le> max x1 x2 \<Longrightarrow> isPath m (a, y)) \<Longrightarrow>
     pathConnected m (x1, y) (x2, y)"
proof (induction "nat \<bar>x2 - x1\<bar>" arbitrary: x2)
  case 0
  then show ?case by (simp add: pathConnected_def)
next
  case (Suc n)
  let ?p = "if x1 < x2 then x2 - 1 else x2 + 1"
  have n: "n = nat \<bar>?p - x1\<bar>"
    using Suc.hyps(2) by auto
  have "pathConnected m (x1, y) (?p, y)"
  proof (rule Suc.hyps(1) [OF n])
    fix a assume "min x1 ?p \<le> a" "a \<le> max x1 ?p"
    then show "isPath m (a, y)"
      using Suc.hyps(2) by (intro Suc.prems) (auto split: if_splits)
  qed
  moreover have "pathStep m (?p, y) (x2, y)"
    using Suc.hyps(2) Suc.prems [of ?p] Suc.prems [of x2]
    by (auto simp: pathStep_def adjacent_def split: if_splits)
  ultimately show ?case
    unfolding pathConnected_def by (rule rtranclp.rtrancl_into_rtrancl)
qed

lemma col_connected:
  "(\<And>b. min y1 y2 \<le> b \<Longrightarrow> b \<le> max y1 y2 \<Longrightarrow> isPath m (x, b)) \<Longrightarrow>
     pathConnected m (x, y1) (x, y2)"
proof (induction "nat \<bar>y2 - y1\<bar>" arbitrary: y2)
  case 0
  then show ?case by (simp add: pathConnected_def)
next
  case (Suc n)
  let ?p = "if y1 < y2 then y2 - 1 else y2 + 1"
  have n: "n = nat \<bar>?p - y1\<bar>"
    using Suc.hyps(2) by auto
  have "pathConnected m (x, y1) (x, ?p)"
  proof (rule Suc.hyps(1) [OF n])
    fix b assume "min y1 ?p \<le> b" "b \<le> max y1 ?p"
    then show "isPath m (x, b)"
      using Suc.hyps(2) by (intro Suc.prems) (auto split: if_splits)
  qed
  moreover have "pathStep m (x, ?p) (x, y2)"
    using Suc.hyps(2) Suc.prems [of ?p] Suc.prems [of y2]
    by (auto simp: pathStep_def adjacent_def split: if_splits)
  ultimately show ?case
    unfolding pathConnected_def by (rule rtranclp.rtrancl_into_rtrancl)
qed

lemma lCorridor_connected:
  assumes "\<And>c. c \<in> lCorridor s e \<Longrightarrow> isPath m c"
  shows "pathConnected m s e"
proof -
  have "pathConnected m (fst s, snd s) (fst e, snd s)"
    by (rule row_connected) (auto intro!: assms simp: lCorridor_def)
  moreover have "pathConnected m (fst e, snd s) (fst e, snd e)"
    by (rule col_connected) (auto intro!: assms simp: lCorridor_def)
  ultimately show ?thesis
    by (simp add: pathConnected_def)
qed

section \<open>What the validator does\<close>

lemma set_pathCells: "set (pathCells m) = {c. isPath m c}"
proof -
  have "set (allCells m) = {c. isInBounds m c}"
    by (auto simp: allCells_def isInBounds_def)
  then show ?thesis
    by (auto simp: pathCells_def isPath_def)
qed

lemma solvableFromEverywhere_iff:
  "solvableFromEverywhere m \<longleftrightarrow> (\<forall>c. isPath m c \<longrightarrow> pathConnected m c (exitPosition m))"
  by (auto simp: solvableFromEverywhere_def list_all_iff set_pathCells bfs_from_start)

lemma wfMaze_grid_update:
  "wfMaze m \<Longrightarrow> sameShape (mazeGrid m) g' \<Longrightarrow> wfMaze (m\<lparr>mazeGrid := g'\<rparr>)"
  using wfGrid_sameShape [of m g'] by (simp add: wfMaze_def)

lemma isPath_grid_update:
  "isPath (m\<lparr>mazeGrid := g\<rparr>) c \<longleftrightarrow> isInBounds m c \<and> \<not> isWall g (fst c) (snd c)"
  by (simp add: isPath_def)

text \<open>What the validator does, by cases on the start cell and on the search.\<close>

lemma ensure_no_start:
  "findStartCell m 0 = None \<Longrightarrow> ensureMazeIsSolvable m = Some (Inr m)"
  by (simp add: ensureMazeIsSolvable_def)

lemma ensure_found:
  "findStartCell m 0 = Some s \<Longrightarrow> bfs m {s} [s] \<Longrightarrow> ensureMazeIsSolvable m = Some (Inr m)"
  by (simp add: ensureMazeIsSolvable_def)

lemma ensure_repair:
  "findStartCell m 0 = Some s \<Longrightarrow> \<not> bfs m {s} [s] \<Longrightarrow>
     ensureMazeIsSolvable m = createPathToExit m s"
  by (simp add: ensureMazeIsSolvable_def)

lemma repair_result:
  assumes wf: "wfMaze m" and s: "isPath m s"
  shows "\<exists>m'. createPathToExit m s = Some (Inr m') \<and> m' = m\<lparr>mazeGrid := mazeGrid m'\<rparr>
     \<and> wfMaze m'
     \<and> (\<forall>c. isPath m' c \<longleftrightarrow> isPath m c \<or> c \<in> lCorridor s (exitPosition m))
     \<and> pathConnected m' s (exitPosition m')"
proof -
  have sb: "isInBounds m s" and eb: "isInBounds m (exitPosition m)"
    using s wf by (simp_all add: isPath_def wfMaze_def)
  from createPathToExit_result [OF wf sb]
  obtain g' where run: "createPathToExit m s = Some (Inr (m\<lparr>mazeGrid := g'\<rparr>))"
    and sh: "sameShape (mazeGrid m) g'"
    and cells: "\<And>c. isInBounds m c \<Longrightarrow>
           isWall g' (fst c) (snd c)
             = (isWall (mazeGrid m) (fst c) (snd c)
                \<and> \<not> (snd c = snd s \<and> stepsTo (fst s) (fst (exitPosition m)) (fst c))
                \<and> \<not> (fst c = fst (exitPosition m) \<and> stepsTo (snd s) (snd (exitPosition m)) (snd c)))"
    by blast
  let ?m = "m\<lparr>mazeGrid := g'\<rparr>"
  have inb: "isInBounds m c" if "c \<in> lCorridor s (exitPosition m)" for c
  proof -
    obtain cx cy sx sy ex ey where [simp]: "c = (cx, cy)" "s = (sx, sy)" "exitPosition m = (ex, ey)"
      by (cases c, cases s, cases "exitPosition m") auto
    show ?thesis
      using that sb eb by (auto simp: lCorridor_def isInBounds_def)
  qed
  have paths: "isPath ?m c \<longleftrightarrow> isPath m c \<or> c \<in> lCorridor s (exitPosition m)" for c
  proof (cases "isInBounds m c")
    case True
    show ?thesis
      using cells [OF True] True s
      by (auto simp: isPath_grid_update lCorridor_iff isPath_def)
  next
    case False
    then show ?thesis
      using inb [of c] by (auto simp: isPath_def)
  qed
  have "pathConnected ?m s (exitPosition m)"
    by (rule lCorridor_connected) (simp add: paths)
  then show ?thesis
    using run wfMaze_grid_update [OF wf sh] paths by auto
qed

lemma ensure_total:
  assumes wf: "wfMaze m"
  shows "\<exists>m'. ensureMazeIsSolvable m = Some (Inr m') \<and> m' = m\<lparr>mazeGrid := mazeGrid m'\<rparr> \<and> wfMaze m'"
proof (cases "findStartCell m 0")
  case None
  then show ?thesis
    using wf by (simp add: ensure_no_start)
next
  case (Some s)
  show ?thesis
  proof (cases "bfs m {s} [s]")
    case True
    then show ?thesis
      using wf Some by (simp add: ensure_found)
  next
    case False
    have "isPath m s"
      using findStartCell_Some [OF Some] by simp
    from repair_result [OF wf this] show ?thesis
      using ensure_repair [OF Some False] by auto
  qed
qed

section \<open>The example mazes, run\<close>

lemmas run_simps = wfMaze_def wfGrid_def isPath_def isInBounds_def isWall_def hasColumn_def
  setCell_def directions_def visitNeighbor_def Let_def upto.simps
  scanColumn.simps findStartCell.simps bfs.simps

lemma blocked_wf: "wfMaze blockedMaze"
  by (simp add: blockedMaze_def run_simps)

lemma blocked_start: "findStartCell blockedMaze 0 = Some (0, 0)"
  by (simp add: blockedMaze_def run_simps)

lemma blocked_bfs: "\<not> bfs blockedMaze {(0, 0)} [(0, 0)]"
  by (simp add: blockedMaze_def run_simps)

lemma blocked_repair:
  "createPathToExit blockedMaze (0, 0) = Some (Inr (blockedMaze\<lparr>mazeGrid :=
      [ [False, True, True, True, True],
       [False, True, True, True, True],
       [False, True, True, True, True],
       [False, True, True, True, True],
       [False, False, False, False, False] ]\<rparr>))"
  by (simp add: blockedMaze_def createPathToExit_def carveRow.simps carveCol.simps run_simps)

lemma junction_solvable: "solvableFromEverywhere junctionMaze"
  by (simp add: junctionMaze_def solvableFromEverywhere_def pathCells_def allCells_def run_simps)

section \<open>The validator after the shift batch\<close>

lemma applyShifts_sameShape: "sameShape g (applyShifts g walls)"
proof -
  have "sameShape g (foldl (\<lambda>g wall. setCell g (fst wall) (fst (snd wall)) (snd (snd wall))) g0 walls)"
    if "sameShape g g0" for g0
    using that by (induction walls arbitrary: g0) (auto simp: sameShape_def)
  then show ?thesis
    by (simp add: applyShifts_def)
qed

lemma shiftBatch_wf: "wfMaze m \<Longrightarrow> wfMaze (shiftBatch m rng)"
  unfolding shiftBatch_def by (rule wfMaze_grid_update) (simp_all add: applyShifts_sameShape)

lemma ensure_start_connected:
  assumes wf: "wfMaze m"
  shows "\<exists>m'. ensureMazeIsSolvable m = Some (Inr m')
     \<and> (\<forall>s. findStartCell m 0 = Some s \<longrightarrow> isPath m' s \<and> bfs m' {s} [s])"
proof (cases "findStartCell m 0")
  case None
  then show ?thesis
    by (simp add: ensure_no_start)
next
  case (Some s)
  have s: "isPath m s"
    using findStartCell_Some [OF Some] by simp
  show ?thesis
  proof (cases "bfs m {s} [s]")
    case True
    then show ?thesis
      using Some s by (simp add: ensure_found)
  next
    case False
    from repair_result [OF wf s]
    obtain m' where run: "createPathToExit m s = Some (Inr m')"
      and paths: "\<And>c. isPath m' c \<longleftrightarrow> isPath m c \<or> c \<in> lCorridor s (exitPosition m)"
      and conn: "pathConnected m' s (exitPosition m')"
      by blast
    have s': "isPath m' s"
      using paths s by simp
    then have "bfs m' {s} [s]"
      using conn by (simp add: bfs_from_start)
    then show ?thesis
      using Some s' run ensure_repair [OF Some False] by simp
  qed
qed

lemma blocked_ensure:
  "ensureMazeIsSolvable blockedMaze = Some (Inr (blockedMaze\<lparr>mazeGrid :=
      [ [False, True, True, True, True],
       [False, True, True, True, True],
       [False, True, True, True, True],
       [False, True, True, True, True],
       [False, False, False, False, False] ]\<rparr>))"
  using ensure_repair [OF blocked_start blocked_bfs] blocked_repair by simp

lemma ensure_keeps_paths:
  assumes "wfGrid m" and run: "ensureMazeIsSolvable m = Some (Inr m')" and c: "isPath m c"
  shows "isPath m' c"
proof (cases "m' = m")
  case True
  with c show ?thesis by simp
next
  case False
  with run obtain s where "createPathToExit m s = Some (Inr m')"
    by (auto simp: ensureMazeIsSolvable_def split: option.splits if_splits)
  from createPathToExit_onlyCleared [OF this]
  have oc: "onlyCleared (mazeGrid m) (mazeGrid m')" and upd: "m' = m\<lparr>mazeGrid := mazeGrid m'\<rparr>"
    by simp_all
  have "hasColumn (mazeGrid m) (fst c)"
    using assms(1) c by (simp add: hasColumn_inBounds isPath_def)
  then have "\<not> isWall (mazeGrid m') (fst c) (snd c)"
    using oc c by (auto simp: onlyCleared_def isPath_def)
  moreover have "isInBounds m' c"
    using c by (subst upd) (simp add: isPath_def)
  ultimately show ?thesis
    by (simp add: isPath_def)
qed

section \<open>The shift batch\<close>

lemma distanceToExit_less_3:
  "distanceToExit m x y < 3 \<longleftrightarrow> (x - fst (exitPosition m))\<^sup>2 + (y - snd (exitPosition m))\<^sup>2 < 9"
proof -
  have "sqrt 9 = 3"
    using real_sqrt_abs [of 3] by simp
  then have "distanceToExit m x y < 3 \<longleftrightarrow>
      sqrt (real_of_int ((x - fst (exitPosition m))\<^sup>2 + (y - snd (exitPosition m))\<^sup>2)) < sqrt 9"
    by (simp add: distanceToExit_def)
  also have "\<dots> \<longleftrightarrow> real_of_int ((x - fst (exitPosition m))\<^sup>2 + (y - snd (exitPosition m))\<^sup>2) < 9"
    by (rule real_sqrt_less_iff)
  also have "\<dots> \<longleftrightarrow> (x - fst (exitPosition m))\<^sup>2 + (y - snd (exitPosition m))\<^sup>2 < 9"
    by linarith
  finally show ?thesis .
qed

lemma foldl_invariant:
  "P init \<Longrightarrow> (\<And>st x. x \<in> set xs \<Longrightarrow> P st \<Longrightarrow> P (f st x)) \<Longrightarrow> P (foldl f init xs)"
  by (induction xs arbitrary: init) auto

lemma shiftScanCell_ok:
  assumes "list_all (shiftEntryOk m) (snd st)" "1 \<le> x" "x \<le> width m - 2" "1 \<le> y" "y \<le> height m - 2"
  shows "list_all (shiftEntryOk m) (snd (shiftScanCell m rng x st y))"
  using assms by (simp add: shiftScanCell_def shiftEntryOk_def)

lemma collectShifts_ok: "list_all (shiftEntryOk m) (snd (collectShifts m rng))"
  unfolding collectShifts_def
proof (rule foldl_invariant [where P = "\<lambda>st. list_all (shiftEntryOk m) (snd st)"])
  show "list_all (shiftEntryOk m) (snd (0::nat, []))" by simp
next
  fix st :: "nat \<times> (int \<times> int \<times> bool) list" and x
  assume x: "x \<in> set [1 .. width m - 2]" and st: "list_all (shiftEntryOk m) (snd st)"
  show "list_all (shiftEntryOk m) (snd (foldl (shiftScanCell m rng x) st [1 .. height m - 2]))"
  proof (rule foldl_invariant [where P = "\<lambda>st. list_all (shiftEntryOk m) (snd st)"])
    show "list_all (shiftEntryOk m) (snd st)" by (rule st)
  next
    fix st' :: "nat \<times> (int \<times> int \<times> bool) list" and y
    assume "y \<in> set [1 .. height m - 2]" and "list_all (shiftEntryOk m) (snd st')"
    then show "list_all (shiftEntryOk m) (snd (shiftScanCell m rng x st' y))"
      using x by (intro shiftScanCell_ok) auto
  qed
qed

lemma applyShifts_changed:
  assumes "hasColumn g a" and "isWall (applyShifts g ws) a b \<noteq> isWall g a b"
  shows "\<exists>w\<in>set ws. fst w = a \<and> fst (snd w) = b \<and> snd (snd w) = isWall (applyShifts g ws) a b"
  using assms(2)
proof (induction ws rule: rev_induct)
  case Nil
  then show ?case by (simp add: applyShifts_def)
next
  case (snoc w ws)
  let ?g = "applyShifts g ws"
  have last: "applyShifts g (ws @ [w]) = setCell ?g (fst w) (fst (snd w)) (snd (snd w))"
    by (simp add: applyShifts_def)
  have col: "hasColumn ?g a"
    using assms(1) applyShifts_sameShape [of g ws] by (simp add: hasColumn_sameShape)
  show ?case
  proof (cases "isWall (applyShifts g (ws @ [w])) a b = isWall ?g a b")
    case True
    with snoc show ?thesis by auto
  next
    case False
    then have "fst w = a \<and> fst (snd w) = b \<and> snd (snd w) = isWall (applyShifts g (ws @ [w])) a b"
      unfolding last using col by (auto simp: isWall_setCell split: if_splits)
    then show ?thesis by auto
  qed
qed

lemma shiftBatch_changed:
  assumes "hasColumn (mazeGrid m) x"
    and "isWall (mazeGrid (shiftBatch m rng)) x y \<noteq> isWall (mazeGrid m) x y"
  shows "shiftEntryOk m (x, y, isWall (mazeGrid (shiftBatch m rng)) x y)"
proof -
  from applyShifts_changed [OF assms(1), of "snd (collectShifts m rng)" y] assms(2)
  obtain w where w: "w \<in> set (snd (collectShifts m rng))"
    and eq: "fst w = x" "fst (snd w) = y" "snd (snd w) = isWall (mazeGrid (shiftBatch m rng)) x y"
    by (auto simp: shiftBatch_def)
  have "shiftEntryOk m w"
    using collectShifts_ok [of m rng] w by (simp add: list_all_iff)
  moreover have "w = (x, y, isWall (mazeGrid (shiftBatch m rng)) x y)"
    using eq by (cases w) auto
  ultimately show ?thesis by simp
qed

lemmas shift_simps = shiftBatch_def collectShifts_def shiftScanCell_def distanceToExit_less_3
  adjacentPaths_def applyShifts_def

lemma junction_wf: "wfMaze junctionMaze"
  by (simp add: junctionMaze_def run_simps)

lemma junction_shift_batch:
  "shiftBatch junctionMaze (\<lambda>i. if i = 4 then 0 else 1 / 2)
     = walledJunctionMaze"
  by (simp add: walledJunctionMaze_def junctionMaze_def shift_simps run_simps)

lemma junction_idle_batch: "shiftBatch junctionMaze (\<lambda>i. 1 / 2) = junctionMaze"
  by (simp add: junctionMaze_def shift_simps run_simps)




lemma arched_wf: "wfMaze archedCorridorMaze"
  by (simp add: archedCorridorMaze_def corridorMaze_def run_simps)

lemma arched_exit: "\<not> isPath archedCorridorMaze (exitPosition archedCorridorMaze)"
  by (simp add: archedCorridorMaze_def corridorMaze_def run_simps)

lemma arched_start: "findStartCell archedCorridorMaze 0 = Some (0, 3)"
  by (simp add: archedCorridorMaze_def corridorMaze_def run_simps)

lemma junction_shifted_validate:
  "ensureMazeIsSolvable walledJunctionMaze
   = Some (Inr walledJunctionMaze)"
  by (simp add: ensureMazeIsSolvable_def walledJunctionMaze_def junctionMaze_def run_simps)

lemma updateMaze_total:
  assumes "wfMaze m"
  shows "\<exists>m'. updateMaze dsub ddiv m deltaTime rng
            = Some (Inr (dsub (nextShiftTime m) (ddiv deltaTime 1000) \<le> 0, m'))"
proof (cases "dsub (nextShiftTime m) (ddiv deltaTime 1000) \<le> 0")
  case True
  let ?m1 = "m\<lparr>nextShiftTime := dsub (nextShiftTime m) (ddiv deltaTime 1000)\<rparr>"
  have "wfMaze ?m1"
    using assms by (simp add: wfMaze_def wfGrid_def isInBounds_def)
  from ensure_total [OF shiftBatch_wf [OF this], of rng]
  obtain m2 where "shiftMazeWalls ?m1 rng = Some (Inr m2)"
    by (auto simp: shiftMazeWalls_def)
  then show ?thesis
    using True by (simp add: updateMaze_def Let_def)
next
  case False
  then show ?thesis
    by (simp add: updateMaze_def Let_def)
qed

lemma junction_idle_update:
  "updateMaze (-) (/) junctionMaze 1000 (\<lambda>i. 1 / 2)
     = Some (Inr (True, junctionMaze\<lparr>nextShiftTime := 60\<rparr>))"
proof -
  let ?m1 = "junctionMaze\<lparr>nextShiftTime := - 1 / 2\<rparr>"
  have b: "shiftBatch ?m1 (\<lambda>i. 1 / 2) = ?m1"
    by (simp add: junctionMaze_def shift_simps run_simps)
  have v: "ensureMazeIsSolvable ?m1 = Some (Inr ?m1)"
    by (simp add: ensureMazeIsSolvable_def junctionMaze_def run_simps)
  have s: "shiftMazeWalls ?m1 (\<lambda>i. 1 / 2) = Some (Inr ?m1)"
    by (simp only: shiftMazeWalls_def b v)
  have t: "junctionMaze\<lparr>nextShiftTime := nextShiftTime junctionMaze - 1000 / 1000\<rparr> = ?m1"
    by (simp add: junctionMaze_def)
  show ?thesis
    unfolding updateMaze_def Let_def t
    using s by (simp add: junctionMaze_def)
qed

section \<open>The exclusion zone\<close>

lemma exclusionKept_refl: "exclusionKept m m"
  by (simp add: exclusionKept_def)

lemma distanceToExit_cong: "exitPosition m' = exitPosition m \<Longrightarrow> distanceToExit m' a b = distanceToExit m a b"
  by (simp add: distanceToExit_def)

lemma exclusionKept_trans:
  assumes "exclusionKept m m1" "exclusionKept m1 m2"
  shows "exclusionKept m m2"
proof -
  have e: "exitPosition m1 = exitPosition m" and sh: "sameShape (mazeGrid m) (mazeGrid m1)"
    using assms(1) by (simp_all add: exclusionKept_def)
  have "isWall (mazeGrid m2) a b = isWall (mazeGrid m) a b"
    if "hasColumn (mazeGrid m) a" "distanceToExit m a b < 3" for a b
  proof -
    have "hasColumn (mazeGrid m1) a" "distanceToExit m1 a b < 3"
      using that sh distanceToExit_cong [OF e, of a b] by (simp_all add: hasColumn_sameShape)
    then have "isWall (mazeGrid m2) a b = isWall (mazeGrid m1) a b"
      using assms(2) by (simp add: exclusionKept_def)
    then show ?thesis
      using assms(1) that by (simp add: exclusionKept_def)
  qed
  moreover have "sameShape (mazeGrid m) (mazeGrid m2)"
  proof -
    have "sameShape (mazeGrid m1) (mazeGrid m2)"
      using assms(2) by (simp add: exclusionKept_def)
    with sh show ?thesis
      by (simp add: sameShape_def)
  qed
  moreover have "exitPosition m2 = exitPosition m" "width m2 = width m" "height m2 = height m"
    using assms unfolding exclusionKept_def by simp_all
  ultimately show ?thesis
    unfolding exclusionKept_def by blast
qed

lemma exclusionKept_setCell:
  assumes "\<not> distanceToExit m x y < 3"
  shows "exclusionKept m (m\<lparr>mazeGrid := setCell (mazeGrid m) x y v\<rparr>)"
proof -
  have "isWall (setCell (mazeGrid m) x y v) a b = isWall (mazeGrid m) a b"
    if "hasColumn (mazeGrid m) a" "distanceToExit m a b < 3" for a b
  proof -
    have "\<not> (a = x \<and> b = y)"
      using that(2) assms by auto
    then show ?thesis
      using that(1) by (auto simp: isWall_setCell)
  qed
  moreover have "sameShape (mazeGrid m) (setCell (mazeGrid m) x y v)"
    by (simp add: sameShape_def)
  ultimately show ?thesis
    unfolding exclusionKept_def by simp
qed

lemma variationAt_kept:
  "variationAt rng n m x y = Inr st' \<Longrightarrow> exclusionKept m (snd st')"
  unfolding variationAt_def
  by (auto simp: exclusionKept_refl exclusionKept_setCell split: if_splits)

lemma variationStep_kept:
  "variationStep rng st = Inr st' \<Longrightarrow> exclusionKept (snd st) (snd st')"
  unfolding variationStep_def by (rule variationAt_kept)

lemma iterate_kept:
  assumes step: "\<And>s s'. f s = Inr s' \<Longrightarrow> exclusionKept (snd s) (snd s')"
  shows "iterate k f s = Inr s' \<Longrightarrow> exclusionKept (snd s) (snd s')"
proof (induction k arbitrary: s)
  case 0
  then show ?case by (simp add: exclusionKept_refl)
next
  case (Suc k)
  then obtain s1 where s1: "f s = Inr s1" and rest: "iterate k f s1 = Inr s'"
    by (auto split: sum.splits)
  show ?case
    using exclusionKept_trans [OF step [OF s1] Suc.IH [OF rest]] .
qed

lemma addRandomVariations_kept:
  "addRandomVariations rng st = Inr st' \<Longrightarrow> exclusionKept (snd st) (snd st')"
  unfolding addRandomVariations_def by (rule iterate_kept [OF variationStep_kept])

lemma shiftBatch_kept: "exclusionKept m (shiftBatch m rng)"
proof -
  have "isWall (mazeGrid (shiftBatch m rng)) a b = isWall (mazeGrid m) a b"
    if "hasColumn (mazeGrid m) a" "distanceToExit m a b < 3" for a b
    using shiftBatch_changed [OF that(1), where y = b and rng = rng] that(2)
    by (auto simp: shiftEntryOk_def)
  then show ?thesis
    by (simp add: exclusionKept_def shiftBatch_def applyShifts_sameShape)
qed

text \<open>The noise pass returns on a grid of the class's shape at least 3 wide, for draws in [0, 1).\<close>

lemma variationAt_total:
  assumes "wfGrid m" "hasColumn (mazeGrid m) x"
  shows "\<exists>n' m'. variationAt rng n m x y = Inr (n', m') \<and> wfGrid m' \<and> width m' = width m"
proof -
  have upd: "wfGrid (m\<lparr>mazeGrid := setCell (mazeGrid m) x y v\<rparr>)" for v
    using assms(1) by (intro wfGrid_sameShape) (simp_all add: sameShape_def)
  show ?thesis
    unfolding variationAt_def using assms upd by auto
qed

lemma variationStep_total:
  assumes "wfGrid m" "3 \<le> width m" "\<forall>i. 0 \<le> rng i \<and> rng i < 1"
  shows "\<exists>n' m'. variationStep rng (n, m) = Inr (n', m') \<and> wfGrid m' \<and> width m' = width m"
proof -
  let ?x = "\<lfloor>rng n * real_of_int (width m - 2)\<rfloor> + 1"
  have r: "0 \<le> rng n" "rng n < 1"
    using assms(3) by simp_all
  have pos: "0 < real_of_int (width m - 2)"
    using assms(2) by simp
  have "0 \<le> rng n * real_of_int (width m - 2)"
    using r(1) pos by simp
  moreover have "rng n * real_of_int (width m - 2) < real_of_int (width m - 2)"
    using r(2) pos by simp
  ultimately have "0 \<le> \<lfloor>rng n * real_of_int (width m - 2)\<rfloor>"
    and "\<lfloor>rng n * real_of_int (width m - 2)\<rfloor> < width m - 2"
    by (simp_all add: floor_less_iff)
  then have col: "hasColumn (mazeGrid m) ?x"
    using assms(1) by (simp add: hasColumn_def wfGrid_def)
  show ?thesis
    unfolding variationStep_def fst_conv snd_conv
    by (rule variationAt_total [OF assms(1) col])
qed

lemma iterate_variation_total:
  assumes "\<forall>i. 0 \<le> rng i \<and> rng i < 1"
  shows "wfGrid m \<Longrightarrow> 3 \<le> width m \<Longrightarrow> \<exists>n' m'. iterate k (variationStep rng) (n, m) = Inr (n', m')"
proof (induction k arbitrary: n m)
  case 0
  then show ?case by simp
next
  case (Suc k)
  from variationStep_total [OF Suc.prems assms, of n]
  obtain n1 m1 where s: "variationStep rng (n, m) = Inr (n1, m1)" and wf: "wfGrid m1"
    and w: "width m1 = width m"
    by blast
  from Suc.IH [OF wf, of n1] Suc.prems(2) w show ?case
    using s by simp
qed

lemmas pass_simps = addArchitecturalFeatures_def pillarStep_def pillarAt_def archStep_def archAt_def
  addRandomVariations_def variationStep_def variationAt_def createDeadEnd_def neighborPaths_def
  adjacentPaths_def distanceToExit_less_3 eval_nat_numeral

lemma walled_noise:
  "addRandomVariations (\<lambda>i. 9 / 10) (0, walledJunctionMaze) = Inr (4, junctionMaze)"
  by (simp add: walledJunctionMaze_def junctionMaze_def pass_simps run_simps)

section \<open>Chambers and corridor widening reach into the exclusion zone\<close>

lemma sqrt_less_5: "sqrt r < 5 \<longleftrightarrow> r < 25"
proof -
  have "sqrt 25 = 5"
    using real_sqrt_abs [of 5] by simp
  then have "sqrt r < 5 \<longleftrightarrow> sqrt r < sqrt 25"
    by simp
  also have "\<dots> \<longleftrightarrow> r < 25"
    by (rule real_sqrt_less_iff)
  finally show ?thesis .
qed

lemmas more_pass_simps = createChambers_def chamberStep_def chamberAt_def chamberPillar_def
  clearChamber_def clearCell_def createWiderCorridors_def corridorStep_def corridorAt_def
  corridorCell_def widenSide_def sqrt_less_5

lemma corner_chambers:
  "createChambers chamberDraws (0, cornerMaze)
     = (12, cornerMaze\<lparr>mazeGrid :=
         [ [False, True, True, True, True, True, True, True],
          [True, True, False, False, False, False, False, True],
          [True, True, False, True, False, False, False, True],
          [True, True, False, False, False, False, False, True],
          [True, True, False, False, False, False, False, True],
          [True, True, False, False, False, False, False, True],
          [True, True, True, True, True, True, True, True],
          [True, True, True, True, True, True, True, True] ]\<rparr>)
   \<and> distanceToExit cornerMaze 1 2 < 3
   \<and> isWall (mazeGrid cornerMaze) 1 2"
  by (simp add: cornerMaze_def chamberDraws_def more_pass_simps pass_simps run_simps)

lemma corridor_widen:
  "createWiderCorridors widenDraws (0, corridorMaze)
     = Inr (10, corridorMaze\<lparr>mazeGrid :=
         [ [True, True, True, False, True, True, True, True],
          [True, True, True, False, True, True, True, True],
          [True, True, True, False, True, True, True, True],
          [True, True, True, False, True, True, True, True],
          [True, True, True, False, True, True, True, True],
          [True, True, False, False, False, True, True, True],
          [True, True, False, False, False, True, True, True],
          [True, True, True, False, True, True, True, True] ]\<rparr>)
   \<and> distanceToExit corridorMaze 6 4 < 3
   \<and> isWall (mazeGrid corridorMaze) 6 4"
  by (simp add: corridorMaze_def widenDraws_def more_pass_simps pass_simps run_simps)

section \<open>What the refinement passes keep\<close>





































section \<open>\<open>generateMaze\<close> up to the validator\<close>















section \<open>The three further mazes, run\<close>

lemma shortcut_wf: "wfMaze shortcutMaze"
  by (simp add: shortcutMaze_def run_simps)

lemma shortcut_solvable: "solvableFromEverywhere shortcutMaze"
  by (simp add: shortcutMaze_def solvableFromEverywhere_def pathCells_def allCells_def run_simps)

lemma shortcut_batch:
  "shiftBatch shortcutMaze (\<lambda>i. if i = 0 then 0 else 1 / 2)
     = shortcutMaze\<lparr>mazeGrid :=
         [ [True, True, True, True, True, True, True],
          [True, False, True, True, True, True, True],
          [True, True, True, True, True, True, True],
          [True, True, True, True, True, True, True],
          [False, True, False, True, True, True, True],
          [False, False, False, False, True, True, True],
          [True, True, True, False, True, True, True] ]\<rparr>"
  by (simp add: shortcutMaze_def shift_simps run_simps)

lemma shortcut_validate:
  "ensureMazeIsSolvable (shortcutMaze\<lparr>mazeGrid :=
         [ [True, True, True, True, True, True, True],
          [True, False, True, True, True, True, True],
          [True, True, True, True, True, True, True],
          [True, True, True, True, True, True, True],
          [False, True, False, True, True, True, True],
          [False, False, False, False, True, True, True],
          [True, True, True, False, True, True, True] ]\<rparr>)
     = Some (Inr repairedShortcutMaze)"
  by (simp add: ensureMazeIsSolvable_def createPathToExit_def carveRow.simps carveCol.simps
        repairedShortcutMaze_def shortcutMaze_def run_simps)




section \<open>The claims\<close>

text \<open>
  C1 (as amended). The validator, and so every shift firing, returns on a well-formed
  maze, and the one cell it examines, the first path cell other than the exit in its
  scan of the grid it is given, is afterwards a path cell from which the search reaches
  the exit.
\<close>

theorem C1_probe_start_reaches_exit:
  assumes "wfMaze m"
  shows "(\<exists>m'. ensureMazeIsSolvable m = Some (Inr m')
            \<and> (\<forall>s. findStartCell m 0 = Some s \<longrightarrow> isPath m' s \<and> bfs m' {s} [s]))
       \<and> (\<exists>m'. shiftMazeWalls m rng = Some (Inr m')
            \<and> (\<forall>s. findStartCell (shiftBatch m rng) 0 = Some s \<longrightarrow> isPath m' s \<and> bfs m' {s} [s]))"
  unfolding shiftMazeWalls_def
  using ensure_start_connected [OF assms] ensure_start_connected [OF shiftBatch_wf [OF assms], of rng]
  by blast

text \<open>
  On the maze with the walled-in exit the start cell is \<open>(0, 0)\<close>.
\<close>

theorem C1_probe_start_reaches_exit_witness:
  "wfMaze blockedMaze \<and> findStartCell blockedMaze 0 = Some (0, 0)
   \<and> (\<exists>m'. ensureMazeIsSolvable blockedMaze = Some (Inr m')
         \<and> isPath m' (0, 0) \<and> bfs m' {(0, 0)} [(0, 0)])"
  using C1_probe_start_reaches_exit [OF blocked_wf, of "\<lambda>i. 1 / 2"] blocked_wf blocked_start
  by auto

text \<open>
  C1 as stated fails. The maze with the junction is solvable from every path cell. A
  shift firing whose fifth draw is below the shift chance turns the junction \<open>(3, 3)\<close>
  into a wall; the validator's start cell \<open>(0, 1)\<close> still reaches the exit, so nothing
  is repaired, and the path cell \<open>(3, 4)\<close> is left with no route to the exit.
\<close>

theorem C1_shift_strands_a_cell:
  "solvableFromEverywhere junctionMaze
   \<and> shiftMazeWalls junctionMaze (\<lambda>i. if i = 4 then 0 else 1 / 2)
       = Some (Inr walledJunctionMaze)
   \<and> isPath walledJunctionMaze (3, 4)
   \<and> \<not> bfs walledJunctionMaze {(3, 4)} [(3, 4)]"
proof (intro conjI)
  show "solvableFromEverywhere junctionMaze"
    by (rule junction_solvable)
  show "shiftMazeWalls junctionMaze (\<lambda>i. if i = 4 then 0 else 1 / 2)
       = Some (Inr walledJunctionMaze)"
    by (simp only: shiftMazeWalls_def junction_shift_batch junction_shifted_validate)
  show "isPath walledJunctionMaze (3, 4)"
    by (simp add: walledJunctionMaze_def junctionMaze_def run_simps)
  show "\<not> bfs walledJunctionMaze {(3, 4)} [(3, 4)]"
    by (simp add: walledJunctionMaze_def junctionMaze_def run_simps)
qed




text \<open>
  C3 (as amended). For a cell nearer than 3 to the exit, the noise pass
  \<open>addRandomVariations\<close> and the batch of a shift firing leave the cell as it was,
  whatever the draws; and the noise pass does return on a grid of the class's shape at
  least 3 wide.
\<close>

theorem C3_noise_and_shift_batch_frame:
  assumes "hasColumn (mazeGrid m) x" and "distanceToExit m x y < 3"
  shows "(\<forall>n st'. addRandomVariations rng (n, m) = Inr st'
            \<longrightarrow> isWall (mazeGrid (snd st')) x y = isWall (mazeGrid m) x y)
       \<and> isWall (mazeGrid (shiftBatch m rng')) x y = isWall (mazeGrid m) x y
       \<and> (wfGrid m \<and> 3 \<le> width m \<and> (\<forall>i. 0 \<le> rng i \<and> rng i < 1)
            \<longrightarrow> (\<forall>n. \<exists>st'. addRandomVariations rng (n, m) = Inr st'))"
proof (intro conjI allI impI)
  fix n st'
  assume "addRandomVariations rng (n, m) = Inr st'"
  from addRandomVariations_kept [OF this] assms
  show "isWall (mazeGrid (snd st')) x y = isWall (mazeGrid m) x y"
    by (simp add: exclusionKept_def)
next
  show "isWall (mazeGrid (shiftBatch m rng')) x y = isWall (mazeGrid m) x y"
    using shiftBatch_kept [of m rng'] assms by (simp add: exclusionKept_def)
next
  fix n
  assume a: "wfGrid m \<and> 3 \<le> width m \<and> (\<forall>i. 0 \<le> rng i \<and> rng i < 1)"
  then have "\<exists>n' m'. iterate (nat ((width m * height m) div 10)) (variationStep rng) (n, m) = Inr (n', m')"
    by (intro iterate_variation_total) simp_all
  then show "\<exists>st'. addRandomVariations rng (n, m) = Inr st'"
    by (auto simp: addRandomVariations_def)
qed

text \<open>
  On the maze whose junction is walled, the noise pass with every draw 9/10 reopens the
  junction \<open>(3, 3)\<close>, at distance above 4 from the exit, and leaves \<open>(1, 1)\<close>, at
  distance below 2, as it was.
\<close>

theorem C3_noise_and_shift_batch_frame_witness:
  "hasColumn (mazeGrid walledJunctionMaze) 1 \<and> distanceToExit walledJunctionMaze 1 1 < 3
   \<and> addRandomVariations (\<lambda>i. 9 / 10) (0, walledJunctionMaze) = Inr (4, junctionMaze)
   \<and> isWall (mazeGrid junctionMaze) 1 1 = isWall (mazeGrid walledJunctionMaze) 1 1
   \<and> isWall (mazeGrid junctionMaze) 3 3 \<noteq> isWall (mazeGrid walledJunctionMaze) 3 3"
proof -
  have c: "hasColumn (mazeGrid walledJunctionMaze) 1"
    by (simp add: walledJunctionMaze_def junctionMaze_def run_simps)
  have d: "distanceToExit walledJunctionMaze 1 1 < 3"
    by (simp add: walledJunctionMaze_def junctionMaze_def distanceToExit_less_3)
  have far: "isWall (mazeGrid junctionMaze) 3 3 \<noteq> isWall (mazeGrid walledJunctionMaze) 3 3"
    by (simp add: walledJunctionMaze_def junctionMaze_def run_simps)
  show ?thesis
    using C3_noise_and_shift_batch_frame [OF c d, of "\<lambda>i. 9 / 10"] walled_noise c d far
    by auto
qed

text \<open>
  C3 as stated fails for the architectural-features pass, which tests no distance. On
  the 8 by 8 maze with a corridor to the exit \<open>(7, 3)\<close>, one pillar round that does
  nothing and one horizontal arch round at \<open>(5, 3)\<close> turn \<open>(5, 3)\<close> and the exit
  itself into walls.
\<close>

theorem C3_arch_walls_the_exit:
  "addArchitecturalFeatures archDraws (0, corridorMaze) = Inr (5, archedCorridorMaze)
   \<and> distanceToExit corridorMaze 7 3 < 3
   \<and> \<not> isWall (mazeGrid corridorMaze) 7 3
   \<and> isWall (mazeGrid archedCorridorMaze) 7 3"
  by (simp add: archedCorridorMaze_def corridorMaze_def archDraws_def pass_simps run_simps)

text \<open>
  C4 (as amended). In the batch of one shift firing (the grid after \<open>wallsToShift.forEach\<close>, before
  the validator runs again), a cell that was a wall and is now a path had at most 2 open
  orthogonal neighbours, and a cell that was a path and is now a wall had at least 3,
  both counted in \<open>m\<close>, the grid as it was before any conversion of the firing: the
  scan writes nothing, the batch is applied after it.
\<close>

theorem C4_shift_batch_rule:
  assumes "wfGrid m" and "isInBounds m (x, y)"
  shows "(isWall (mazeGrid m) x y \<and> \<not> isWall (mazeGrid (shiftBatch m rng)) x y
            \<longrightarrow> adjacentPaths m x y \<le> 2)
       \<and> (\<not> isWall (mazeGrid m) x y \<and> isWall (mazeGrid (shiftBatch m rng)) x y
            \<longrightarrow> 3 \<le> adjacentPaths m x y)"
proof -
  have col: "hasColumn (mazeGrid m) x"
    using hasColumn_inBounds [OF assms] by simp
  show ?thesis
    using shiftBatch_changed [OF col, where y = y and rng = rng]
    by (auto simp: shiftEntryOk_def)
qed

text \<open>
  On the maze with the junction, with the fifth draw below the shift chance, the
  junction \<open>(3, 3)\<close> has three open neighbours and becomes a wall.
\<close>

theorem C4_shift_batch_rule_witness:
  "wfGrid junctionMaze \<and> isInBounds junctionMaze (3, 3)
   \<and> \<not> isWall (mazeGrid junctionMaze) 3 3
   \<and> isWall (mazeGrid (shiftBatch junctionMaze (\<lambda>i. if i = 4 then 0 else 1 / 2))) 3 3
   \<and> 3 \<le> adjacentPaths junctionMaze 3 3"
proof -
  have wf: "wfGrid junctionMaze"
    using junction_wf by (simp add: wfMaze_def)
  have b: "isInBounds junctionMaze (3, 3)"
    by (simp add: junctionMaze_def run_simps)
  have before: "\<not> isWall (mazeGrid junctionMaze) 3 3"
    by (simp add: junctionMaze_def run_simps)
  have after: "isWall (mazeGrid (shiftBatch junctionMaze (\<lambda>i. if i = 4 then 0 else 1 / 2))) 3 3"
    by (simp add: junction_shift_batch) (simp add: walledJunctionMaze_def junctionMaze_def run_simps)
  show ?thesis
    using C4_shift_batch_rule [OF wf b, of "\<lambda>i. if i = 4 then 0 else 1 / 2"] wf b before after
    by blast
qed

text \<open>
  C4 as stated fails for a whole firing: the validator that ends the firing clears
  walls with no test of their neighbours. On the 7 by 7 maze, which is solvable from
  everywhere, the first draw opens \<open>(1, 1)\<close>; the validator starts there, does not
  reach the exit \<open>(6, 3)\<close> and carves along the row \<open>y = 1\<close> and the column
  \<open>x = 6\<close>, which opens \<open>(4, 1)\<close>, a wall with three open neighbours before the
  firing.
\<close>

theorem C4_repair_opens_a_junction_wall:
  "wfMaze shortcutMaze \<and> solvableFromEverywhere shortcutMaze
   \<and> shiftMazeWalls shortcutMaze (\<lambda>i. if i = 0 then 0 else 1 / 2) = Some (Inr repairedShortcutMaze)
   \<and> isWall (mazeGrid shortcutMaze) 4 1 \<and> \<not> isWall (mazeGrid repairedShortcutMaze) 4 1
   \<and> adjacentPaths shortcutMaze 4 1 = 3"
proof (intro conjI)
  show "wfMaze shortcutMaze"
    by (rule shortcut_wf)
  show "solvableFromEverywhere shortcutMaze"
    by (rule shortcut_solvable)
  show "shiftMazeWalls shortcutMaze (\<lambda>i. if i = 0 then 0 else 1 / 2) = Some (Inr repairedShortcutMaze)"
    by (simp only: shiftMazeWalls_def shortcut_batch shortcut_validate)
  show "isWall (mazeGrid shortcutMaze) 4 1"
    by (simp add: shortcutMaze_def run_simps)
  show "\<not> isWall (mazeGrid repairedShortcutMaze) 4 1"
    by (simp add: repairedShortcutMaze_def shortcutMaze_def run_simps)
  show "adjacentPaths shortcutMaze 4 1 = 3"
    by (simp add: adjacentPaths_def shortcutMaze_def run_simps)
qed

text \<open>
  C5. When the validator finds a start cell \<open>s\<close> and its search from \<open>s\<close> does not
  reach the exit, the validator returns, only the grid is changed, the path cells
  afterwards are exactly the path cells before together with the cells of the L-shaped
  corridor from \<open>s\<close> to the exit (walls on it are overwritten), and \<open>s\<close> is joined to
  the exit through path cells: the search from \<open>s\<close> now succeeds.
\<close>

theorem C5_repair_carves_corridor:
  assumes "wfMaze m" and "findStartCell m 0 = Some s" and "\<not> bfs m {s} [s]"
  shows "\<exists>m'. ensureMazeIsSolvable m = Some (Inr m') \<and> m' = m\<lparr>mazeGrid := mazeGrid m'\<rparr>
     \<and> (\<forall>c. isPath m' c \<longleftrightarrow> isPath m c \<or> c \<in> lCorridor s (exitPosition m))
     \<and> pathConnected m' s (exitPosition m') \<and> bfs m' {s} [s]"
proof -
  have s: "isPath m s"
    using findStartCell_Some [OF assms(2)] by simp
  from repair_result [OF assms(1) s]
  obtain m' where run: "createPathToExit m s = Some (Inr m')"
    and upd: "m' = m\<lparr>mazeGrid := mazeGrid m'\<rparr>"
    and paths: "\<And>c. isPath m' c \<longleftrightarrow> isPath m c \<or> c \<in> lCorridor s (exitPosition m)"
    and conn: "pathConnected m' s (exitPosition m')"
    by blast
  have "isPath m' s"
    using paths s by simp
  then have "bfs m' {s} [s]"
    using conn by (simp add: bfs_from_start)
  then show ?thesis
    using run upd paths conn ensure_repair [OF assms(2,3)] by auto
qed

text \<open>
  On the maze with the walled-in exit the start cell is \<open>(0, 0)\<close>, the search fails and
  the repair runs.
\<close>

theorem C5_repair_carves_corridor_witness:
  "wfMaze blockedMaze \<and> findStartCell blockedMaze 0 = Some (0, 0)
   \<and> \<not> bfs blockedMaze {(0, 0)} [(0, 0)]
   \<and> (\<exists>m'. ensureMazeIsSolvable blockedMaze = Some (Inr m')
         \<and> m' = blockedMaze\<lparr>mazeGrid := mazeGrid m'\<rparr>
         \<and> (\<forall>c. isPath m' c \<longleftrightarrow> isPath blockedMaze c \<or> c \<in> lCorridor (0, 0) (exitPosition blockedMaze))
         \<and> pathConnected m' (0, 0) (exitPosition m') \<and> bfs m' {(0, 0)} [(0, 0)])"
  using C5_repair_carves_corridor [OF blocked_wf blocked_start blocked_bfs]
    blocked_wf blocked_start blocked_bfs
  by simp

text \<open>
  C6. On a grid of the class's shape in which the exit is reached from every path cell
  (\<open>solvableFromEverywhere_iff\<close>: the search from each path cell succeeds exactly when
  each path cell is joined to the exit), the validator returns the object as it was.
\<close>

theorem C6_validator_idempotent:
  assumes "wfGrid m" and "solvableFromEverywhere m"
  shows "ensureMazeIsSolvable m = Some (Inr m)"
proof (cases "findStartCell m 0")
  case None
  then show ?thesis
    by (rule ensure_no_start)
next
  case (Some s)
  have s: "isPath m s"
    using findStartCell_Some [OF Some] by simp
  then have "pathConnected m s (exitPosition m)"
    using assms(2) unfolding solvableFromEverywhere_iff by blast
  then have "bfs m {s} [s]"
    using s by (simp add: bfs_from_start)
  with Some show ?thesis
    by (rule ensure_found)
qed

text \<open>
  The maze with the junction is solvable from everywhere and the validator leaves it as
  it is.
\<close>

theorem C6_validator_idempotent_witness:
  "wfGrid junctionMaze \<and> solvableFromEverywhere junctionMaze
   \<and> ensureMazeIsSolvable junctionMaze = Some (Inr junctionMaze)"
proof -
  have wf: "wfGrid junctionMaze"
    using junction_wf by (simp add: wfMaze_def)
  show ?thesis
    using C6_validator_idempotent [OF wf junction_solvable] wf junction_solvable by simp
qed

text \<open>
  C7 (as amended). The constructor sets \<open>usePatternedGeneration\<close> and
  \<open>patternType = Math.floor(Math.random() * 3)\<close>, so \<open>generateMaze\<close> runs one of the
  three pattern generators, chosen by the product \<open>p\<close> that the code computes from
  the draw: geometric when \<open>p\<close> is below 1, concentric from 1 to below 2, symmetric
  from 2. Prim's algorithm is run for no draw.
\<close>

theorem C7_three_patterns:
  assumes "0 \<le> p" "p < 3" and c: "constructor w h cs p = Inr m"
  shows "selectGenerator m \<noteq> PrimsAlgorithm
     \<and> (selectGenerator m = GeometricPattern \<longleftrightarrow> p < 1)
     \<and> (selectGenerator m = ConcentricPattern \<longleftrightarrow> 1 \<le> p \<and> p < 2)
     \<and> (selectGenerator m = SymmetricPattern \<longleftrightarrow> 2 \<le> p)"
proof -
  have pt: "patternType m = \<lfloor>p\<rfloor>" and up: "usePatternedGeneration m"
    using c by (auto simp: constructor_def split: if_splits)
  have f0: "\<lfloor>p\<rfloor> = 0 \<longleftrightarrow> p < 1" using assms(1,2) by (auto simp: floor_eq_iff)
  have f1: "\<lfloor>p\<rfloor> = 1 \<longleftrightarrow> 1 \<le> p \<and> p < 2" using assms(1,2) by (auto simp: floor_eq_iff)
  have f2: "\<lfloor>p\<rfloor> = 2 \<longleftrightarrow> 2 \<le> p" using assms(1,2) by (auto simp: floor_eq_iff)
  have cases: "p < 1 \<or> (1 \<le> p \<and> p < 2) \<or> 2 \<le> p" by linarith
  show ?thesis
    using cases f0 f1 f2 by (auto simp: selectGenerator_def pt up)
qed

text \<open>
  The draw 1/2, whose product with 3 is the double 3/2, selects the concentric pattern
  on a 20 by 20 maze.
\<close>

theorem C7_three_patterns_witness:
  "(0::real) \<le> 3 / 2 \<and> (3 / 2 :: real) < 3
   \<and> constructor 20 20 2 (3 / 2)
       = Inr \<lparr>width = 20, height = 20, cellSize = 2, shiftInterval = 60, shiftChance = 2 / 10,
              mazeGrid = replicate 20 (replicate 20 True), exitPosition = (0, 0),
              nextShiftTime = 0, usePatternedGeneration = True, patternType = 1\<rparr>
   \<and> selectGenerator \<lparr>width = 20, height = 20, cellSize = 2, shiftInterval = 60, shiftChance = 2 / 10,
              mazeGrid = replicate 20 (replicate 20 True), exitPosition = (0, 0),
              nextShiftTime = 0, usePatternedGeneration = True, patternType = 1\<rparr> = ConcentricPattern"
proof -
  have c: "constructor 20 20 2 (3 / 2)
       = Inr \<lparr>width = 20, height = 20, cellSize = 2, shiftInterval = 60, shiftChance = 2 / 10,
              mazeGrid = replicate 20 (replicate 20 True), exitPosition = (0, 0),
              nextShiftTime = 0, usePatternedGeneration = True, patternType = 1\<rparr>"
    by (simp add: constructor_def validArrayLength_def)
  have r: "(0::real) \<le> 3 / 2" "(3 / 2 :: real) < 3" by simp_all
  show ?thesis
    using C7_three_patterns [OF r c] c by simp
qed

text \<open>
  C7 as stated fails: no product in \<open>[0, 3)\<close>, so no draw, makes the constructed object
  select Prim's algorithm.
\<close>

theorem C7_prim_never_selected:
  "\<not> (\<exists>p w h cs m. 0 \<le> p \<and> p < 3 \<and> constructor w h cs p = Inr m
         \<and> selectGenerator m = PrimsAlgorithm)"
proof
  assume "\<exists>p w h cs m. 0 \<le> p \<and> p < 3 \<and> constructor w h cs p = Inr m
         \<and> selectGenerator m = PrimsAlgorithm"
  then obtain p w h cs m where r: "0 \<le> p" "p < 3" and c: "constructor w h cs p = Inr m"
    and sel: "selectGenerator m = PrimsAlgorithm"
    by blast
  have pt: "patternType m = \<lfloor>p\<rfloor>" and up: "usePatternedGeneration m"
    using c by (auto simp: constructor_def split: if_splits)
  have "0 \<le> \<lfloor>p\<rfloor>" "\<lfloor>p\<rfloor> < 3"
    using r by (auto simp: floor_less_iff)
  then have "\<lfloor>p\<rfloor> = 0 \<or> \<lfloor>p\<rfloor> = 1 \<or> \<lfloor>p\<rfloor> = 2"
    by linarith
  with sel show False
    by (auto simp: selectGenerator_def pt up)
qed

text \<open>
  C8 (as amended). On a well-formed maze \<open>updateMaze\<close> returns, and its boolean is
  true exactly when the countdown it has just decremented, the double left in
  \<open>nextShiftTime\<close> by \<open>-= deltaTime / 1000\<close>, is at or below zero, that is, when the
  shift step ran; this for whatever the double division and subtraction return.
\<close>

theorem C8_true_iff_shift_fired:
  assumes "wfMaze m"
  shows "\<exists>b m'. updateMaze dsub ddiv m deltaTime rng = Some (Inr (b, m'))
           \<and> (b \<longleftrightarrow> dsub (nextShiftTime m) (ddiv deltaTime 1000) \<le> 0)"
  using updateMaze_total [OF assms, of dsub ddiv deltaTime rng] by blast

text \<open>
  The maze with the junction has half a second left; after 1000 ms the shift runs. On
  these doubles \<open>1000 / 1000 = 1\<close> and \<open>0.5 - 1 = -0.5\<close> are exact, so the real
  division and subtraction return what the code computes.
\<close>

theorem C8_true_iff_shift_fired_witness:
  "wfMaze junctionMaze
   \<and> updateMaze (-) (/) junctionMaze 1000 (\<lambda>i. 1 / 2)
       = Some (Inr (True, junctionMaze\<lparr>nextShiftTime := 60\<rparr>))
   \<and> nextShiftTime junctionMaze - 1000 / 1000 \<le> 0"
  using C8_true_iff_shift_fired [OF junction_wf, of "(-)" "(/)" 1000 "\<lambda>i. 1 / 2"]
    junction_wf junction_idle_update
  by auto

text \<open>
  C8 as stated fails. With half a second left, 1000 ms elapsed (both steps of the
  countdown exact) and every draw above the shift chance, the batch is empty, the
  validator repairs nothing, the grid is the same, and \<open>updateMaze\<close> returns true.
\<close>

theorem C8_true_without_change:
  "updateMaze (-) (/) junctionMaze 1000 (\<lambda>i. 1 / 2)
     = Some (Inr (True, junctionMaze\<lparr>nextShiftTime := 60\<rparr>))
   \<and> mazeGrid (junctionMaze\<lparr>nextShiftTime := 60\<rparr>) = mazeGrid junctionMaze
   \<and> snd (collectShifts (junctionMaze\<lparr>nextShiftTime := - 1 / 2\<rparr>) (\<lambda>i. 1 / 2)) = []"
proof (intro conjI)
  show "updateMaze (-) (/) junctionMaze 1000 (\<lambda>i. 1 / 2)
     = Some (Inr (True, junctionMaze\<lparr>nextShiftTime := 60\<rparr>))"
    by (rule junction_idle_update)
  show "mazeGrid (junctionMaze\<lparr>nextShiftTime := 60\<rparr>) = mazeGrid junctionMaze"
    by simp
  show "snd (collectShifts (junctionMaze\<lparr>nextShiftTime := - 1 / 2\<rparr>) (\<lambda>i. 1 / 2)) = []"
    by (simp add: junctionMaze_def shift_simps run_simps)
qed

text \<open>
  C9 (as amended). The constructor tests nothing: it fails, with the \<open>RangeError\<close> of
  \<open>Array\<close>, exactly when the width is negative or above \<open>2\<^sup>3\<^sup>2 - 1\<close>, or the width is
  positive and the height is negative or above \<open>2\<^sup>3\<^sup>2 - 1\<close>. In every other case,
  a zero width or height included, it returns an object with a grid of \<open>width\<close>
  columns of \<open>height\<close> walls and the exit at \<open>(0, 0)\<close>.
\<close>

theorem C9_constructor_outcome:
  "(constructor w h cs p = Inl RangeError
      \<longleftrightarrow> w < 0 \<or> 4294967295 < w \<or> (0 < w \<and> (h < 0 \<or> 4294967295 < h)))
   \<and> (\<forall>e. constructor w h cs p = Inl e \<longrightarrow> e = RangeError)
   \<and> (\<forall>m. constructor w h cs p = Inr m \<longrightarrow>
         width m = w \<and> height m = h \<and> exitPosition m = (0, 0)
         \<and> mazeGrid m = replicate (nat w) (replicate (nat h) True))"
  by (auto simp: constructor_def validArrayLength_def)

text \<open>Height 0 is accepted and gives twenty empty columns; width -1 is a \<open>RangeError\<close>.\<close>

theorem C9_constructor_outcome_witness:
  "constructor 20 0 2 (3 / 2) \<noteq> Inl RangeError
   \<and> constructor (-1) 20 2 (3 / 2) = Inl RangeError
   \<and> constructor 20 0 2 (3 / 2)
       = Inr \<lparr>width = 20, height = 0, cellSize = 2, shiftInterval = 60, shiftChance = 2 / 10,
              mazeGrid = replicate 20 [], exitPosition = (0, 0),
              nextShiftTime = 0, usePatternedGeneration = True, patternType = 1\<rparr>"
proof -
  have c: "constructor 20 0 2 (3 / 2)
       = Inr \<lparr>width = 20, height = 0, cellSize = 2, shiftInterval = 60, shiftChance = 2 / 10,
              mazeGrid = replicate 20 [], exitPosition = (0, 0),
              nextShiftTime = 0, usePatternedGeneration = True, patternType = 1\<rparr>"
    by (simp add: constructor_def validArrayLength_def)
  show ?thesis
    using C9_constructor_outcome [of 20 0 2 "3 / 2"] C9_constructor_outcome [of "-1" 20 2 "3 / 2"] c
    by simp
qed

text \<open>
  C9 as stated fails: width 0 is not rejected, the constructor returns an object with an
  empty grid and an exit position.
\<close>

theorem C9_zero_width_accepted:
  "constructor 0 20 2 (3 / 2)
     = Inr \<lparr>width = 0, height = 20, cellSize = 2, shiftInterval = 60, shiftChance = 2 / 10,
            mazeGrid = [], exitPosition = (0, 0),
            nextShiftTime = 0, usePatternedGeneration = True, patternType = 1\<rparr>"
  by (simp add: constructor_def validArrayLength_def)

text \<open>
  C10. On every grid of the class's shape the validator turns no path cell into a wall:
  whenever it returns, every cell that was a path still is one. It does return whenever
  the exit is a cell of the grid.
\<close>

theorem C10_validator_keeps_paths:
  assumes "wfGrid m"
  shows "(\<forall>m' c. ensureMazeIsSolvable m = Some (Inr m') \<longrightarrow> isPath m c \<longrightarrow> isPath m' c)
     \<and> (isInBounds m (exitPosition m) \<longrightarrow> (\<exists>m'. ensureMazeIsSolvable m = Some (Inr m')))"
proof (intro conjI allI impI)
  fix m' c
  assume "ensureMazeIsSolvable m = Some (Inr m')" and "isPath m c"
  with assms show "isPath m' c"
    by (rule ensure_keeps_paths)
next
  assume "isInBounds m (exitPosition m)"
  then have "wfMaze m"
    using assms by (simp add: wfMaze_def)
  from ensure_total [OF this] show "\<exists>m'. ensureMazeIsSolvable m = Some (Inr m')"
    by blast
qed

text \<open>
  On the maze with the walled-in exit the repair branch runs and the path cell
  \<open>(0, 0)\<close> is kept.
\<close>

theorem C10_validator_keeps_paths_witness:
  "wfGrid blockedMaze
   \<and> ensureMazeIsSolvable blockedMaze = Some (Inr (blockedMaze\<lparr>mazeGrid :=
      [ [False, True, True, True, True],
       [False, True, True, True, True],
       [False, True, True, True, True],
       [False, True, True, True, True],
       [False, False, False, False, False] ]\<rparr>))
   \<and> isPath blockedMaze (0, 0)
   \<and> isPath (blockedMaze\<lparr>mazeGrid :=
      [ [False, True, True, True, True],
       [False, True, True, True, True],
       [False, True, True, True, True],
       [False, True, True, True, True],
       [False, False, False, False, False] ]\<rparr>) (0, 0)
   \<and> isInBounds blockedMaze (exitPosition blockedMaze)"
proof -
  have wf: "wfGrid blockedMaze" and e: "isInBounds blockedMaze (exitPosition blockedMaze)"
    using blocked_wf by (simp_all add: wfMaze_def)
  have p: "isPath blockedMaze (0, 0)"
    by (simp add: blockedMaze_def run_simps)
  show ?thesis
    using C10_validator_keeps_paths [OF wf] blocked_ensure p wf e by blast
qed

end
